theory Spec2Isabelle
  imports Main "HOL-Library.AList"
begin

section \<open>Data model of lib/CSRF.js\<close>

text \<open>
  The module keeps no state of its own: every method reads the configuration of the
  object, a session object handed in by the caller, and talks to the Luno API through
  the client stored in \<open>self.luno\<close>. Arrays are lists, a missing property (\<open>undefined\<close>)
  is \<open>None\<close>, and in-place mutation of the session object is explicit state passing:
  each method returns the session as it is in memory afterwards.

  Objects used as dictionaries are association lists, read with \<open>map_of\<close>.
  \<^item> \<open>session.details.csrf\<close> comes from JSON: its association list holds its own
    properties.
  \<^item> \<open>details\<close> and \<open>resp\<close> are made by \<open>{}\<close> and filled by assignments \<open>obj[k] = v\<close>,
    which are \<open>AList.update k v\<close>. Such an object never has an own property named
    \<open>__proto__\<close>: the assignment \<open>obj['__proto__'] = v\<close> sets the prototype of \<open>obj\<close>
    instead. So in these two lists, and only there, the entry under \<open>__proto__\<close> is the
    prototype of the object and not a property; it is not part of the JSON text of the
    object.
  \<^item> Reading \<open>obj[k]\<close> finds an own property first and then what the object inherits;
    see \<open>object_get\<close> below.
  Numbers are integers: the model is exact as long as the numbers of the program are
  integers that JavaScript represents exactly.
\<close>

datatype js_error = TypeError | RangeError

type_synonym err = string

text \<open>A credential \<open>{ name, token, created }\<close>; \<open>name\<close> is only set when \<open>useName\<close> is on.\<close>

record cred =
  name :: "string option"
  token :: string
  created :: int

type_synonym csrf_details = "(string \<times> cred list) list"

text \<open>\<open>session.details\<close>: only its \<open>csrf\<close> property is read or written by this module.\<close>

record session_details =
  csrf :: "csrf_details option"

text \<open>A Luno session model, e.g. \<open>{ type: 'session', id: 'sess_X', key: ..., details: {...} }\<close>.\<close>

record session =
  id_session :: "string option"
  key :: string
  details :: "session_details option"

record cookie_config =
  maxAge :: int
  httpOnly :: bool

record config =
  tokenLength :: int
  useName :: bool
  name :: string
  nameLength :: int
  maxTokens :: int
  expiry :: int
  expireAfterUse :: bool
  sessionCookieName :: string
  sessionCookieConfig :: cookie_config

text \<open>
  The Luno client is an external collaborator. \<open>post path body\<close> and \<open>patch path body\<close>
  give what the client hands to the callback: an error or the created session for
  \<open>post\<close>, an optional error for \<open>patch\<close>. The request body is always
  \<open>{ details: { csrf: ... } }\<close>, so a body is a \<open>session_details\<close> value. Every request
  issued is also recorded as a \<open>call\<close>.
\<close>

record luno_client =
  post :: "string \<Rightarrow> session_details \<Rightarrow> err + session"
  patch :: "string \<Rightarrow> session_details \<Rightarrow> err option"

datatype call = Post string session_details | Patch string session_details

record csrf_object =
  config :: config
  luno :: luno_client

section \<open>Constructor\<close>

text \<open>
  The caller's \<open>config\<close> argument is a list of property assignments; the loop
  \<open>for (var i in config) self.config[i] = config[i]\<close> applies them to the defaults
  one after the other.
\<close>

datatype setting =
    TokenLength int
  | UseName bool
  | Name string
  | NameLength int
  | MaxTokens int
  | Expiry int
  | ExpireAfterUse bool
  | SessionCookieName string
  | SessionCookieConfig cookie_config

definition defaults :: config where
  "defaults =
     \<lparr> tokenLength = 30, useName = True, name = ''csrf-'', nameLength = 12,
       maxTokens = 20, expiry = 1000 * 60 * 60 * 24, expireAfterUse = True,
       sessionCookieName = ''session'',
       sessionCookieConfig = \<lparr> maxAge = 1209600000, httpOnly = True \<rparr> \<rparr>"

fun assign :: "config \<Rightarrow> setting \<Rightarrow> config" where
  "assign c (TokenLength v) = c\<lparr>tokenLength := v\<rparr>"
| "assign c (UseName v) = c\<lparr>useName := v\<rparr>"
| "assign c (Name v) = c\<lparr>config.name := v\<rparr>"
| "assign c (NameLength v) = c\<lparr>nameLength := v\<rparr>"
| "assign c (MaxTokens v) = c\<lparr>maxTokens := v\<rparr>"
| "assign c (Expiry v) = c\<lparr>expiry := v\<rparr>"
| "assign c (ExpireAfterUse v) = c\<lparr>expireAfterUse := v\<rparr>"
| "assign c (SessionCookieName v) = c\<lparr>sessionCookieName := v\<rparr>"
| "assign c (SessionCookieConfig v) = c\<lparr>sessionCookieConfig := v\<rparr>"


section \<open>generateCredentials\<close>

text \<open>
  \<open>crypto.randomBytes\<close> and \<open>Date.now\<close> are inputs of the model. For one call of
  \<open>generateCredentials\<close>, \<open>name_bytes n\<close> and \<open>token_bytes n\<close> are the outcomes of
  \<open>crypto.randomBytes(n).toString('base64')\<close> for the name and for the token (the call
  throws for sizes it does not accept), and \<open>clock\<close> is the reading of \<open>Date.now()\<close>.
\<close>

record entropy =
  name_bytes :: "int \<Rightarrow> js_error + string"
  token_bytes :: "int \<Rightarrow> js_error + string"
  clock :: int

definition generateCredentials :: "csrf_object \<Rightarrow> entropy \<Rightarrow> js_error + cred" where
  "generateCredentials self e =
     (if useName (config self) then
        (case name_bytes e (nameLength (config self)) of
           Inl x \<Rightarrow> Inl x
         | Inr n \<Rightarrow>
             (case token_bytes e (tokenLength (config self)) of
                Inl x \<Rightarrow> Inl x
              | Inr t \<Rightarrow> Inr \<lparr> cred.name = Some n, token = t, created = clock e \<rparr>))
      else
        (case token_bytes e (tokenLength (config self)) of
           Inl x \<Rightarrow> Inl x
         | Inr t \<Rightarrow> Inr \<lparr> cred.name = None, token = t, created = clock e \<rparr>))"

section \<open>Reading a property\<close>

text \<open>
  What a plain object inherits from \<open>Object.prototype\<close> in Node.js: the functions below,
  each with its \<open>length\<close>, and under \<open>__proto__\<close> the prototype object itself. None of
  them is enumerable, so \<open>for (var i in d)\<close> does not see them.
\<close>

definition object_member :: "string \<Rightarrow> nat option" where
  "object_member k =
     map_of [(''constructor'', 1), (''hasOwnProperty'', 1), (''isPrototypeOf'', 1),
             (''propertyIsEnumerable'', 1), (''toLocaleString'', 0), (''toString'', 0),
             (''valueOf'', 0), (''__defineGetter__'', 2), (''__defineSetter__'', 2),
             (''__lookupGetter__'', 1), (''__lookupSetter__'', 1)] k"

text \<open>
  A value found that is not one of the stored arrays: a function with its \<open>length\<close>, an
  object without a \<open>length\<close> property, or a number.
\<close>

datatype inherited = Function_val nat | Object_val | Number_val nat

datatype looked = Absent | Stored "cred list" | Inherited inherited

text \<open>The truthiness of a value read: an array is truthy also when it is empty.\<close>

fun truthy :: "looked \<Rightarrow> bool" where
  "truthy Absent = False"
| "truthy (Stored l) = True"
| "truthy (Inherited (Number_val n)) = (n \<noteq> 0)"
| "truthy (Inherited v) = True"

text \<open>\<open>obj[k]\<close> for a plain object without an own property \<open>k\<close>.\<close>

definition object_get :: "string \<Rightarrow> looked" where
  "object_get k =
     (if k = ''__proto__'' then Inherited Object_val
      else (case object_member k of
              Some n \<Rightarrow> Inherited (Function_val n)
            | None \<Rightarrow> Absent))"

text \<open>\<open>d[k]\<close> for \<open>d = session.details.csrf\<close>.\<close>

definition csrf_get :: "csrf_details \<Rightarrow> string \<Rightarrow> looked" where
  "csrf_get d k = (case map_of d k of Some l \<Rightarrow> Stored l | None \<Rightarrow> object_get k)"

text \<open>
  \<open>details[k]\<close> for the object \<open>details\<close> that \<open>_expire\<close> has filled. An entry under \<open>k\<close> is
  found first (for \<open>k = '__proto__'\<close> it is the prototype, which the getter returns).
  Otherwise the property is looked up in the prototype: in \<open>Object.prototype\<close>, or, when
  the prototype has been set to an array \<open>p\<close>, in that array and what it inherits.
  \<open>array_member p k\<close> is what JavaScript finds there; it is a parameter.
\<close>

definition details_get ::
  "(cred list \<Rightarrow> string \<Rightarrow> inherited option) \<Rightarrow> csrf_details \<Rightarrow> string \<Rightarrow> looked" where
  "details_get array_member dts k =
     (case map_of dts k of
        Some l \<Rightarrow> Stored l
      | None \<Rightarrow>
          (case map_of dts ''__proto__'' of
             None \<Rightarrow> object_get k
           | Some p \<Rightarrow>
               (case array_member p k of None \<Rightarrow> Absent | Some v \<Rightarrow> Inherited v)))"

section \<open>_expire\<close>

text \<open>\<open>l.splice(j, 1)\<close>: remove the element at index \<open>j\<close>.\<close>

definition splice1 :: "nat \<Rightarrow> 'a list \<Rightarrow> 'a list" where
  "splice1 j l = take j l @ drop (Suc j) l"

text \<open>
  The inner loop \<open>var j = l.length; while (j--) { ... }\<close> for the form \<open>i\<close>. The array
  \<open>l\<close> is the one stored in the session, and \<open>details[i] = l\<close> stores a reference to
  it; the pair returned is the array and \<open>details\<close> after the loop. Reading \<open>l[j]\<close>
  beyond the end gives \<open>undefined\<close>, whose \<open>created\<close> throws. \<open>now\<close> is the reading of
  \<open>Date.now()\<close>, taken as one value for the whole call.
\<close>

fun expire_while ::
  "csrf_object \<Rightarrow> int \<Rightarrow> string \<Rightarrow> nat \<Rightarrow> cred list \<Rightarrow> csrf_details
     \<Rightarrow> js_error + (cred list \<times> csrf_details)" where
  "expire_while self now i 0 l dts = Inr (l, dts)"
| "expire_while self now i (Suc j) l dts =
     (if j < length l then
        (if created (l ! j) < now - expiry (config self) then
           (let l' = splice1 j l in expire_while self now i j l' (AList.update i l' dts))
         else expire_while self now i j l dts)
      else Inl TypeError)"

text \<open>The outer loop \<open>for (var i in d)\<close> over the property names of \<open>d\<close>.\<close>

fun expire_forms ::
  "csrf_object \<Rightarrow> int \<Rightarrow> string list \<Rightarrow> csrf_details \<Rightarrow> csrf_details
     \<Rightarrow> js_error + (csrf_details \<times> csrf_details)" where
  "expire_forms self now [] d dts = Inr (d, dts)"
| "expire_forms self now (i # rest) d dts =
     (case map_of d i of
        None \<Rightarrow> Inl TypeError
      | Some l \<Rightarrow>
          (case expire_while self now i (length l) l dts of
             Inl e \<Rightarrow> Inl e
           | Inr (l', dts') \<Rightarrow> expire_forms self now rest (AList.update i l' d) dts'))"

definition expire ::
  "csrf_object \<Rightarrow> int \<Rightarrow> session option \<Rightarrow> csrf_details
     \<Rightarrow> js_error + (session option \<times> csrf_details)" where
  "expire self now sess dts =
     (case sess of
        None \<Rightarrow> Inr (None, dts)
      | Some s \<Rightarrow>
          (case details s of
             None \<Rightarrow> Inl TypeError
           | Some sd \<Rightarrow>
               (case csrf sd of
                  None \<Rightarrow> Inr (Some s, dts)
                | Some d \<Rightarrow>
                    (case expire_forms self now (map fst d) d dts of
                       Inl e \<Rightarrow> Inl e
                     | Inr (d', dts') \<Rightarrow>
                         Inr (Some (s\<lparr>details := Some (sd\<lparr>csrf := Some d'\<rparr>)\<rparr>), dts')))))"

section \<open>save\<close>

datatype save_cb = SaveErr err | SaveOk session bool

text \<open>
  \<open>!session || !session.id\<close>: an absent session, an absent id and the empty string are
  falsy, and lead to \<open>luno.post\<close>; any other id leads to \<open>luno.patch\<close>.
\<close>

definition save :: "csrf_object \<Rightarrow> session option \<Rightarrow> csrf_details \<Rightarrow> call list \<times> save_cb" where
  "save self sess dts =
     (let body = \<lparr> csrf = Some dts \<rparr>;
          create =
            ([Post ''/sessions'' body],
             (case post (luno self) ''/sessions'' body of
                Inl e \<Rightarrow> SaveErr e
              | Inr created_sess \<Rightarrow> SaveOk created_sess True))
      in case sess of
           None \<Rightarrow> create
         | Some s \<Rightarrow>
             (case id_session s of
                None \<Rightarrow> create
              | Some i \<Rightarrow>
                  (if i = [] then create
                   else
                     ([Patch (''/sessions/'' @ i) body],
                      (case patch (luno self) (''/sessions/'' @ i) body of
                         Some e \<Rightarrow> SaveErr e
                       | None \<Rightarrow> SaveOk s False)))))"

section \<open>generate\<close>

datatype forms_arg = Single string | Array "string list"

datatype generate_cb = GenErr err | GenOk "(string \<times> cred) list" session bool

record generate_out =
  gen_calls :: "call list"
  gen_cb :: generate_cb
  gen_session :: "session option"

text \<open>
  \<open>session && session.details.csrf && session.details.csrf[f]\<close>. \<open>session.details.csrf\<close>
  throws when \<open>session.details\<close> is undefined.
\<close>

definition session_array :: "session option \<Rightarrow> string \<Rightarrow> js_error + looked" where
  "session_array sess f =
     (case sess of
        None \<Rightarrow> Inr Absent
      | Some s \<Rightarrow>
          (case details s of
             None \<Rightarrow> Inl TypeError
           | Some sd \<Rightarrow> (case csrf sd of None \<Rightarrow> Inr Absent | Some d \<Rightarrow> Inr (csrf_get d f))))"

text \<open>
  The effect on the session object of mutating the array it stores for \<open>f\<close> in place.
\<close>

definition set_form :: "session option \<Rightarrow> string \<Rightarrow> cred list \<Rightarrow> session option" where
  "set_form sess f l =
     (case sess of
        None \<Rightarrow> None
      | Some s \<Rightarrow>
          (case details s of
             None \<Rightarrow> Some s
           | Some sd \<Rightarrow>
               (case csrf sd of
                  None \<Rightarrow> Some s
                | Some d \<Rightarrow> Some (s\<lparr>details := Some (sd\<lparr>csrf := Some (AList.update f l d)\<rparr>)\<rparr>))))"

text \<open>
  The loop \<open>for (var i = 0; i < forms.length; i++)\<close>. \<open>rnd i\<close> is what the \<open>i\<close>-th call of
  \<open>generateCredentials\<close> draws. \<open>arr\<close> is what the session has under \<open>f\<close> if that is
  truthy, and a fresh \<open>[]\<close> otherwise.
  \<^item> When it is an array of the session, \<open>shift\<close> and \<open>push\<close> change the session.
  \<^item> When it is an inherited member, it has no \<open>shift\<close> and no \<open>push\<close>: \<open>arr.shift()\<close>
    throws if \<open>arr.length >= maxTokens\<close> holds (a comparison with \<open>undefined\<close> does
    not), and otherwise \<open>arr.push(creds)\<close> throws after the credentials have been drawn.
  \<^item> \<open>arr\<close> is never \<open>undefined\<close>; that branch is what \<open>arr.length\<close> would do.
\<close>

fun generate_loop ::
  "csrf_object \<Rightarrow> (nat \<Rightarrow> entropy) \<Rightarrow> nat \<Rightarrow> string list \<Rightarrow> session option \<Rightarrow> csrf_details
     \<Rightarrow> (string \<times> cred) list
     \<Rightarrow> js_error + (session option \<times> csrf_details \<times> (string \<times> cred) list)" where
  "generate_loop self rnd i [] sess dts resp = Inr (sess, dts, resp)"
| "generate_loop self rnd i (f # fs) sess dts resp =
     (case session_array sess f of
        Inl e \<Rightarrow> Inl e
      | Inr found \<Rightarrow>
          (case (if truthy found then found else Stored []) of
             Inherited v \<Rightarrow>
               (if (case v of Function_val n \<Rightarrow> int n \<ge> maxTokens (config self) | _ \<Rightarrow> False)
                then Inl TypeError
                else (case generateCredentials self (rnd i) of
                        Inl e \<Rightarrow> Inl e
                      | Inr creds \<Rightarrow> Inl TypeError))
           | Absent \<Rightarrow> Inl TypeError
           | Stored arr \<Rightarrow>
               (let arr1 = (if int (length arr) \<ge> maxTokens (config self) then tl arr else arr)
                in case generateCredentials self (rnd i) of
                     Inl e \<Rightarrow> Inl e
                   | Inr creds \<Rightarrow>
                       (let arr2 = arr1 @ [creds];
                            sess' = (if truthy found then set_form sess f arr2 else sess)
                        in generate_loop self rnd (Suc i) fs sess'
                             (AList.update f arr2 dts) (AList.update f creds resp)))))"

definition generate ::
  "csrf_object \<Rightarrow> int \<Rightarrow> (nat \<Rightarrow> entropy) \<Rightarrow> session option \<Rightarrow> forms_arg
     \<Rightarrow> js_error + generate_out" where
  "generate self now rnd sess forms =
     (case expire self now sess [] of
        Inl e \<Rightarrow> Inl e
      | Inr (sess1, dts1) \<Rightarrow>
          (let fs = (case forms of Array xs \<Rightarrow> xs | Single f \<Rightarrow> [f]) in
           case generate_loop self rnd 0 fs sess1 dts1 [] of
             Inl e \<Rightarrow> Inl e
           | Inr (sess2, dts2, resp) \<Rightarrow>
               (case save self sess2 dts2 of
                  (calls, SaveErr e) \<Rightarrow>
                    Inr \<lparr> gen_calls = calls, gen_cb = GenErr e, gen_session = sess2 \<rparr>
                | (calls, SaveOk s fresh) \<Rightarrow>
                    Inr \<lparr> gen_calls = calls, gen_cb = GenOk resp s fresh,
                          gen_session = sess2 \<rparr>)))"

section \<open>validate and inputHTML\<close>

text \<open>
  The name of the form field of a credential, as computed in both \<open>validate\<close> and
  \<open>inputHTML\<close>: \<open>var name = self.config.name; if (self.config.useName && c.name) name += c.name\<close>.
  The empty string is falsy, and appending it changes nothing.
\<close>

definition field_name :: "csrf_object \<Rightarrow> cred \<Rightarrow> string" where
  "field_name self c =
     (if useName (config self) then
        (case cred.name c of
           None \<Rightarrow> config.name (config self)
         | Some n \<Rightarrow> (if n = [] then config.name (config self) else config.name (config self) @ n))
      else config.name (config self))"

definition inputHTML :: "csrf_object \<Rightarrow> cred \<Rightarrow> string" where
  "inputHTML self creds =
     ''<input type='' @ [CHR 0x22] @ ''hidden'' @ [CHR 0x22] @ '' name='' @ [CHR 0x22]
       @ field_name self creds @ [CHR 0x22] @ '' value='' @ [CHR 0x22] @ token creds
       @ [CHR 0x22] @ ''>''"

text \<open>
  A request body is absent, or an object of which only \<open>body[name]\<close> is read: it is the
  function from a name to the value found under it (\<open>Undefined\<close> when there is none;
  \<open>Other\<close> is a value that is not a primitive). \<open>scmp\<close> (the constant-time comparison of
  the npm package of that name) is a parameter of \<open>validate\<close>.
\<close>

datatype jsval = Undefined | Str string | Num int | Boolean bool | Other

type_synonym body = "string \<Rightarrow> jsval"

datatype validate_cb = ValErr err | ValOk bool "session option"

record validate_out =
  ret :: bool
  val_cb :: validate_cb
  val_calls :: "call list"
  val_session :: "session option"

text \<open>
  \<open>session && session.details && session.details.csrf && session.details.csrf[form]\<close>.
\<close>

definition session_form :: "session option \<Rightarrow> string \<Rightarrow> looked" where
  "session_form sess form =
     (case sess of
        None \<Rightarrow> Absent
      | Some s \<Rightarrow>
          (case details s of
             None \<Rightarrow> Absent
           | Some sd \<Rightarrow> (case csrf sd of None \<Rightarrow> Absent | Some d \<Rightarrow> csrf_get d form)))"

text \<open>
  The loop \<open>for (var i = 0; i < csrf.length; i++)\<close> for an array \<open>csrf\<close>, which returns
  from inside at the first match. \<open>csrf\<close> is the array stored in the session, so
  \<open>csrf.splice(i, 1)\<close> changes the session too. \<open>body[name]\<close> throws when the body is
  absent.
\<close>

function validate_loop ::
  "csrf_object \<Rightarrow> (jsval \<Rightarrow> string \<Rightarrow> bool) \<Rightarrow> string \<Rightarrow> session option \<Rightarrow> body option
     \<Rightarrow> csrf_details \<Rightarrow> cred list \<Rightarrow> nat \<Rightarrow> js_error + validate_out" where
  "validate_loop self scmp form sess bdy dts csrf_arr i =
     (if i < length csrf_arr then
        (let c = csrf_arr ! i in
         case bdy of
           None \<Rightarrow> Inl TypeError
         | Some b \<Rightarrow>
             (if \<not> scmp (b (field_name self c)) (token c) then
                validate_loop self scmp form sess bdy dts csrf_arr (Suc i)
              else if \<not> expireAfterUse (config self) then
                Inr \<lparr> ret = True, val_cb = ValOk True sess, val_calls = [], val_session = sess \<rparr>
              else
                (let csrf_arr' = splice1 i csrf_arr;
                     dts' = AList.update form csrf_arr' dts;
                     sess' = set_form sess form csrf_arr'
                 in case save self sess' dts' of
                      (calls, SaveErr e) \<Rightarrow>
                        Inr \<lparr> ret = True, val_cb = ValErr e, val_calls = calls,
                              val_session = sess' \<rparr>
                    | (calls, SaveOk s fresh) \<Rightarrow>
                        Inr \<lparr> ret = True, val_cb = ValOk True (Some s), val_calls = calls,
                              val_session = sess' \<rparr>)))
      else
        Inr \<lparr> ret = False, val_cb = ValOk False None, val_calls = [], val_session = sess \<rparr>)"
  by pat_completeness auto
termination
  by (relation "measure (\<lambda>(self, scmp, form, sess, bdy, dts, csrf_arr, i). length csrf_arr - i)")
     auto

declare validate_loop.simps [simp del]

text \<open>
  \<open>validate\<close>. After \<open>_expire\<close>, \<open>csrf = details[form] || csrf\<close>, and the loop runs on
  whatever \<open>csrf\<close> is:
  \<^item> an array: \<open>validate_loop\<close>;
  \<^item> a function: \<open>csrf.length\<close> is its number of parameters; when that is positive,
    \<open>c = csrf[0]\<close> is \<open>undefined\<close> and reading \<open>c.name\<close> or \<open>c.token\<close> throws; when it
    is 0 the loop does not run;
  \<^item> another object or a number: \<open>csrf.length\<close> is \<open>undefined\<close>, the loop does not run;
  \<^item> \<open>csrf\<close> is never \<open>undefined\<close> there; that branch is what \<open>csrf.length\<close> would do.
\<close>

definition validate ::
  "csrf_object \<Rightarrow> (jsval \<Rightarrow> string \<Rightarrow> bool) \<Rightarrow> (cred list \<Rightarrow> string \<Rightarrow> inherited option)
     \<Rightarrow> int \<Rightarrow> string \<Rightarrow> session option \<Rightarrow> body option \<Rightarrow> js_error + validate_out" where
  "validate self scmp array_member now form sess bdy =
     (let csrf0 = session_form sess form in
      if \<not> truthy csrf0 then
        Inr \<lparr> ret = False, val_cb = ValOk False None, val_calls = [], val_session = sess \<rparr>
      else
        (case expire self now sess [] of
           Inl e \<Rightarrow> Inl e
         | Inr (sess1, dts) \<Rightarrow>
             (let found = details_get array_member dts form;
                  csrf1 = (if truthy found then found else csrf0)
              in case csrf1 of
                   Stored csrf_arr \<Rightarrow> validate_loop self scmp form sess1 bdy dts csrf_arr 0
                 | Inherited (Function_val n) \<Rightarrow>
                     (if 0 < n then Inl TypeError
                      else Inr \<lparr> ret = False, val_cb = ValOk False None, val_calls = [],
                                 val_session = sess1 \<rparr>)
                 | Inherited v \<Rightarrow>
                     Inr \<lparr> ret = False, val_cb = ValOk False None, val_calls = [],
                           val_session = sess1 \<rparr>
                 | Absent \<Rightarrow> Inl TypeError)))"

text \<open>
  \<open>validateReq(form, req, cb)\<close> is \<open>self.validate(form, req.session, req.body, cb)\<close>; of the
  request only these two properties are read.
\<close>

record request =
  req_session :: "session option"
  req_body :: "body option"

definition validateReq ::
  "csrf_object \<Rightarrow> (jsval \<Rightarrow> string \<Rightarrow> bool) \<Rightarrow> (cred list \<Rightarrow> string \<Rightarrow> inherited option)
     \<Rightarrow> int \<Rightarrow> string \<Rightarrow> request \<Rightarrow> js_error + validate_out" where
  "validateReq self scmp array_member now form req =
     validate self scmp array_member now form (req_session req) (req_body req)"

section \<open>Notions used in the statements\<close>

text \<open>A credential is kept by \<open>_expire\<close> at time \<open>now\<close> when the test
  \<open>l[j].created < Date.now() - self.config.expiry\<close> fails.\<close>

definition alive :: "csrf_object \<Rightarrow> int \<Rightarrow> cred \<Rightarrow> bool" where
  "alive self now c \<longleftrightarrow> \<not> created c < now - expiry (config self)"

text \<open>The credentials of a list that \<open>_expire\<close> keeps.\<close>

definition prune :: "csrf_object \<Rightarrow> int \<Rightarrow> cred list \<Rightarrow> cred list" where
  "prune self now l = filter (alive self now) l"

text \<open>
  The numbers that decide the expiry of the credentials of a list are integers of at most
  9007199254740992 (2 to the power 53) in absolute value, so that JavaScript computes \<open>Date.now() - self.config.expiry\<close>
  and the comparison with \<open>created\<close> exactly.
\<close>

definition exact_numbers :: "csrf_object \<Rightarrow> int \<Rightarrow> cred list \<Rightarrow> bool" where
  "exact_numbers self now l \<longleftrightarrow>
     \<bar>now\<bar> \<le> 9007199254740992 \<and> \<bar>expiry (config self)\<bar> \<le> 9007199254740992
     \<and> \<bar>now - expiry (config self)\<bar> \<le> 9007199254740992
     \<and> (\<forall>c \<in> set l. \<bar>created c\<bar> \<le> 9007199254740992)"

text \<open>The test of the \<open>validate\<close> loop: the value submitted under the field name of the
  credential compares equal to its token.\<close>

definition matches :: "csrf_object \<Rightarrow> (jsval \<Rightarrow> string \<Rightarrow> bool) \<Rightarrow> body \<Rightarrow> cred \<Rightarrow> bool" where
  "matches self scmp b c \<longleftrightarrow> scmp (b (field_name self c)) (token c)"

text \<open>What \<open>validate\<close> does at the first matching index \<open>m\<close> of an array.\<close>

definition hit ::
  "csrf_object \<Rightarrow> string \<Rightarrow> session option \<Rightarrow> csrf_details \<Rightarrow> cred list \<Rightarrow> nat \<Rightarrow> validate_out" where
  "hit self form sess dts l m =
     (if \<not> expireAfterUse (config self) then
        \<lparr> ret = True, val_cb = ValOk True sess, val_calls = [], val_session = sess \<rparr>
      else
        (case save self (set_form sess form (splice1 m l)) (AList.update form (splice1 m l) dts) of
           (calls, SaveErr e) \<Rightarrow>
             \<lparr> ret = True, val_cb = ValErr e, val_calls = calls,
               val_session = set_form sess form (splice1 m l) \<rparr>
         | (calls, SaveOk s fresh) \<Rightarrow>
             \<lparr> ret = True, val_cb = ValOk True (Some s), val_calls = calls,
               val_session = set_form sess form (splice1 m l) \<rparr>))"

text \<open>The session is absent, or it has a \<open>details\<close> object.\<close>

definition has_details :: "session option \<Rightarrow> bool" where
  "has_details sess = (case sess of None \<Rightarrow> True | Some s \<Rightarrow> details s \<noteq> None)"

text \<open>The array that \<open>session.details.csrf\<close> has as its own property \<open>f\<close>, if any.\<close>

definition own_list :: "session option \<Rightarrow> string \<Rightarrow> cred list option" where
  "own_list sess f =
     (case sess of
        None \<Rightarrow> None
      | Some s \<Rightarrow>
          (case details s of
             None \<Rightarrow> None
           | Some sd \<Rightarrow> (case csrf sd of None \<Rightarrow> None | Some d \<Rightarrow> map_of d f)))"

text \<open>The credentials a session stores for a form; none when there is no such array.\<close>

definition stored :: "session option \<Rightarrow> string \<Rightarrow> cred list" where
  "stored sess f = (case own_list sess f of Some l \<Rightarrow> l | None \<Rightarrow> [])"

text \<open>
  A name under which a plain object inherits nothing: not \<open>__proto__\<close> and not the name of
  a member of \<open>Object.prototype\<close>.
\<close>

definition plain_name :: "string \<Rightarrow> bool" where
  "plain_name k \<longleftrightarrow> k \<noteq> ''__proto__'' \<and> object_member k = None"

text \<open>\<open>session.details.csrf\<close> has no own property named \<open>__proto__\<close>.\<close>

definition no_proto_key :: "session option \<Rightarrow> bool" where
  "no_proto_key sess \<longleftrightarrow> own_list sess ''__proto__'' = None"

text \<open>The first \<open>n\<close> calls of \<open>generateCredentials\<close> return: \<open>crypto.randomBytes\<close> accepts
  the configured lengths.\<close>

definition draws_ok :: "csrf_object \<Rightarrow> (nat \<Rightarrow> entropy) \<Rightarrow> nat \<Rightarrow> bool" where
  "draws_ok self rnd n \<longleftrightarrow> (\<forall>i < n. \<exists>c. generateCredentials self (rnd i) = Inr c)"

text \<open>\<open>if (arr.length >= self.config.maxTokens) arr.shift()\<close> on an array.\<close>

definition evict :: "csrf_object \<Rightarrow> cred list \<Rightarrow> cred list" where
  "evict self arr = (if int (length arr) \<ge> maxTokens (config self) then tl arr else arr)"

text \<open>\<open>forms = Array.isArray(forms) ? forms : [ forms ]\<close>.\<close>

definition forms_list :: "forms_arg \<Rightarrow> string list" where
  "forms_list forms = (case forms of Array xs \<Rightarrow> xs | Single f \<Rightarrow> [f])"

text \<open>The body of a request made to the session store.\<close>

definition call_body :: "call \<Rightarrow> session_details" where
  "call_body c = (case c of Post p b \<Rightarrow> b | Patch p b \<Rightarrow> b)"

text \<open>
  The properties the JSON text of \<open>details\<close> carries: every entry but the prototype.
\<close>

definition json_own :: "csrf_details \<Rightarrow> csrf_details" where
  "json_own dts = filter (\<lambda>p. fst p \<noteq> ''__proto__'') dts"

text \<open>The list a single request to the session store carries for a form.\<close>

definition persisted_form :: "call list \<Rightarrow> string \<Rightarrow> cred list option" where
  "persisted_form calls f =
     (case calls of
        [c] \<Rightarrow> (case csrf (call_body c) of Some d \<Rightarrow> map_of (json_own d) f | None \<Rightarrow> None)
      | _ \<Rightarrow> None)"

section \<open>Example values\<close>

text \<open>
  A session store that accepts every request and creates a session with the properties
  of the JSON text it receives; objects with the default configuration, with tokens that
  stay valid after use, with the configuration
  \<open>{ tokenLength: 16, maxTokens: 2, expireAfterUse: true }\<close> and with empty names and
  tokens.
\<close>

definition luno_ex :: luno_client where
  "luno_ex =
     \<lparr> post = (\<lambda>p b. Inr \<lparr> id_session = Some ''sess_new'', key = ''key_new'',
                           details = Some \<lparr> csrf = map_option json_own (csrf b) \<rparr> \<rparr>),
       patch = (\<lambda>p b. None) \<rparr>"

definition self_ex :: csrf_object where
  "self_ex = \<lparr> config = defaults, luno = luno_ex \<rparr>"

definition self_keep :: csrf_object where
  "self_keep = \<lparr> config = defaults\<lparr> expireAfterUse := False \<rparr>, luno = luno_ex \<rparr>"

definition self_two :: csrf_object where
  "self_two =
     \<lparr> config = foldl assign defaults [TokenLength 16, MaxTokens 2, ExpireAfterUse True],
       luno = luno_ex \<rparr>"

definition self_zero :: csrf_object where
  "self_zero =
     \<lparr> config = foldl assign defaults [TokenLength 0, NameLength 0], luno = luno_ex \<rparr>"

text \<open>
  A comparison that accepts exactly the token as a string; a body with the given values
  and nothing else; a lookup in arrays that knows \<open>length\<close> and \<open>push\<close>.
\<close>

definition scmp_ex :: "jsval \<Rightarrow> string \<Rightarrow> bool" where
  "scmp_ex v t \<longleftrightarrow> v = Str t"

definition body_of :: "(string \<times> jsval) list \<Rightarrow> body" where
  "body_of kvs k = (case map_of kvs k of Some v \<Rightarrow> v | None \<Rightarrow> Undefined)"

definition array_member_ex :: "cred list \<Rightarrow> string \<Rightarrow> inherited option" where
  "array_member_ex p k =
     (if k = ''length'' then Some (Number_val (length p))
      else if k = ''push'' then Some (Function_val 1)
      else (case object_get k of Inherited v \<Rightarrow> Some v | _ \<Rightarrow> None))"

text \<open>
  Credentials: with the default expiry of 86400000 ms, \<open>cred_old\<close> is expired at time
  90000000 and \<open>cred_new\<close> is not.
\<close>

definition cred_old :: cred where
  "cred_old = \<lparr> cred.name = Some ''n1'', token = ''t1'', created = 0 \<rparr>"

definition cred_new :: cred where
  "cred_new = \<lparr> cred.name = Some ''n2'', token = ''t2'', created = 90000000 \<rparr>"

definition cred_at :: "int \<Rightarrow> cred" where
  "cred_at t = \<lparr> cred.name = Some ''n'', token = ''t'', created = t \<rparr>"


definition session_with :: "cred list \<Rightarrow> session" where
  "session_with l =
     \<lparr> id_session = Some ''sess_1'', key = ''k'', details = Some \<lparr> csrf = Some [(''login'', l)] \<rparr> \<rparr>"

text \<open>
  Draws: \<open>crypto.randomBytes\<close> throws for a negative size and gives no bytes for size 0;
  otherwise the \<open>i\<close>-th credential gets a name and a token of its own.
\<close>

definition bytes_ex :: "char \<Rightarrow> nat \<Rightarrow> int \<Rightarrow> js_error + string" where
  "bytes_ex tag i n =
     (if n < 0 then Inl RangeError
      else if n = 0 then Inr []
      else Inr (tag # replicate i CHR ''x''))"

definition rnd_ex :: "nat \<Rightarrow> entropy" where
  "rnd_ex i = \<lparr> name_bytes = bytes_ex CHR ''n'' i, token_bytes = bytes_ex CHR ''t'' i,
                clock = 90000000 \<rparr>"

text \<open>
  The credential that the \<open>i\<close>-th draw of \<open>rnd_ex\<close> yields with the default lengths, and
  the one that every draw yields with \<open>tokenLength\<close> and \<open>nameLength\<close> 0.
\<close>

definition cred_ex :: "nat \<Rightarrow> cred" where
  "cred_ex i = \<lparr> cred.name = Some (CHR ''n'' # replicate i CHR ''x''),
                 token = CHR ''t'' # replicate i CHR ''x'', created = 90000000 \<rparr>"

definition cred_empty :: cred where
  "cred_empty = \<lparr> cred.name = Some [], token = [], created = 90000000 \<rparr>"

text \<open>The session that \<open>luno_ex\<close> creates for a list of credentials of the form \<open>login\<close>.\<close>

definition session_new :: "cred list \<Rightarrow> session" where
  "session_new l =
     \<lparr> id_session = Some ''sess_new'', key = ''key_new'',
       details = Some \<lparr> csrf = Some [(''login'', l)] \<rparr> \<rparr>"

text \<open>An object with the configuration \<open>{ nameLength: -1 }\<close>.\<close>

definition self_neg :: csrf_object where
  "self_neg = \<lparr> config = foldl assign defaults [NameLength (- 1)], luno = luno_ex \<rparr>"

lemmas ex_defs = luno_ex_def self_ex_def scmp_ex_def cred_old_def cred_new_def session_with_def
  defaults_def

section \<open>The loops of \<open>_expire\<close> in closed form\<close>

lemma expire_while_eq:
  "j \<le> length l \<Longrightarrow>
   expire_while self now i j l dts =
     Inr (filter (alive self now) (take j l) @ drop j l,
          if \<forall>c \<in> set (take j l). alive self now c then dts
          else AList.update i (filter (alive self now) (take j l) @ drop j l) dts)"
proof (induction j arbitrary: l dts)
  case 0
  then show ?case by simp
next
  case (Suc j)
  then have jl: "j < length l" by simp
  show ?case
  proof (cases "alive self now (l ! j)")
    case True
    with Suc jl show ?thesis
      by (simp add: alive_def take_Suc_conv_app_nth Cons_nth_drop_Suc)
  next
    case False
    have len: "j \<le> length (splice1 j l)" using jl by (simp add: splice1_def)
    have tk: "take j (splice1 j l) = take j l" using jl by (simp add: splice1_def)
    have dr: "drop j (splice1 j l) = drop (Suc j) l" using jl by (simp add: splice1_def)
    from False jl Suc.IH[OF len] show ?thesis
      by (simp add: alive_def take_Suc_conv_app_nth tk dr Let_def) (simp add: splice1_def)
  qed
qed

lemma expire_while_full:
  "expire_while self now i (length l) l dts =
     Inr (prune self now l,
          if prune self now l = l then dts else AList.update i (prune self now l) dts)"
  using expire_while_eq[of "length l" l self now i dts]
  by (simp add: prune_def filter_id_conv)

lemma prune_idem: "prune self now (prune self now l) = prune self now l"
  by (simp add: prune_def)

lemma set_prune: "set (prune self now l) = {c \<in> set l. alive self now c}"
  by (auto simp: prune_def)

lemma prune_snoc:
  "alive self now c \<Longrightarrow> prune self now (pre @ [c]) = prune self now pre @ [c]"
  by (simp add: prune_def)

lemma expire_forms_eq:
  "set ks \<subseteq> fst ` set d \<Longrightarrow>
   \<exists>d' dts'. expire_forms self now ks d dts = Inr (d', dts')
     \<and> map fst d' = map fst d
     \<and> (\<forall>f. map_of d' f = (if f \<in> set ks then map_option (prune self now) (map_of d f) else map_of d f))
     \<and> (\<forall>f. map_of dts' f =
            (case map_of d f of
               Some l \<Rightarrow> if f \<in> set ks \<and> prune self now l \<noteq> l then Some (prune self now l) else map_of dts f
             | None \<Rightarrow> map_of dts f))"
proof (induction ks arbitrary: d dts)
  case Nil
  then show ?case by (simp split: option.splits)
next
  case (Cons k ks)
  then have "k \<in> fst ` set d" by simp
  then have "map_of d k \<noteq> None" by (simp add: map_of_eq_None_iff)
  then obtain l where l: "map_of d k = Some l" by blast
  let ?d1 = "AList.update k (prune self now l) d"
  let ?dts1 = "if prune self now l = l then dts else AList.update k (prune self now l) dts"
  have sub: "set ks \<subseteq> fst ` set ?d1" using Cons.prems by (auto simp: dom_update)
  from Cons.IH[OF sub, of ?dts1] obtain d' dts' where
    r: "expire_forms self now ks ?d1 ?dts1 = Inr (d', dts')"
    and k: "map fst d' = map fst ?d1"
    and m: "\<forall>f. map_of d' f = (if f \<in> set ks then map_option (prune self now) (map_of ?d1 f) else map_of ?d1 f)"
    and t: "\<forall>f. map_of dts' f =
            (case map_of ?d1 f of
               Some l \<Rightarrow> if f \<in> set ks \<and> prune self now l \<noteq> l then Some (prune self now l) else map_of ?dts1 f
             | None \<Rightarrow> map_of ?dts1 f)"
    by blast
  have kin: "k \<in> set (map fst d)" using Cons.prems by auto
  have "expire_forms self now (k # ks) d dts = Inr (d', dts')"
    using l r by (simp add: expire_while_full)
  moreover have "map fst d' = map fst d" using k kin by (simp add: update_keys)
  moreover have "\<forall>f. map_of d' f = (if f \<in> set (k # ks) then map_option (prune self now) (map_of d f) else map_of d f)"
    using m l by (auto simp: update_conv' prune_idem)
  moreover have "\<forall>f. map_of dts' f =
            (case map_of d f of
               Some l \<Rightarrow> if f \<in> set (k # ks) \<and> prune self now l \<noteq> l then Some (prune self now l) else map_of dts f
             | None \<Rightarrow> map_of dts f)"
    using t l by (auto simp: update_conv' prune_idem split: option.splits)
  ultimately show ?case by blast
qed

lemma expire_forms_all:
  "\<exists>d' dts'. expire_forms self now (map fst d) d dts = Inr (d', dts')
     \<and> map fst d' = map fst d
     \<and> (\<forall>f. map_of d' f = map_option (prune self now) (map_of d f))
     \<and> (\<forall>f. map_of dts' f =
            (case map_of d f of
               Some l \<Rightarrow> if prune self now l \<noteq> l then Some (prune self now l) else map_of dts f
             | None \<Rightarrow> map_of dts f))"
proof -
  have mem: "\<And>f. f \<in> set (map fst d) \<longleftrightarrow> map_of d f \<noteq> None"
    by (simp add: map_of_eq_None_iff)
  from expire_forms_eq[of "map fst d" d self now dts] obtain d' dts' where
    r: "expire_forms self now (map fst d) d dts = Inr (d', dts')"
    and k: "map fst d' = map fst d"
    and m: "\<forall>f. map_of d' f = (if f \<in> set (map fst d) then map_option (prune self now) (map_of d f) else map_of d f)"
    and t: "\<forall>f. map_of dts' f =
            (case map_of d f of
               Some l \<Rightarrow> if f \<in> set (map fst d) \<and> prune self now l \<noteq> l then Some (prune self now l) else map_of dts f
             | None \<Rightarrow> map_of dts f)"
    by auto
  have "\<forall>f. map_of d' f = map_option (prune self now) (map_of d f)"
  proof
    fix f show "map_of d' f = map_option (prune self now) (map_of d f)"
      using m[rule_format, of f] mem[of f] by (cases "map_of d f") auto
  qed
  moreover have "\<forall>f. map_of dts' f =
            (case map_of d f of
               Some l \<Rightarrow> if prune self now l \<noteq> l then Some (prune self now l) else map_of dts f
             | None \<Rightarrow> map_of dts f)"
  proof
    fix f show "map_of dts' f =
            (case map_of d f of
               Some l \<Rightarrow> if prune self now l \<noteq> l then Some (prune self now l) else map_of dts f
             | None \<Rightarrow> map_of dts f)"
      using t[rule_format, of f] mem[of f] by (cases "map_of d f") auto
  qed
  ultimately show ?thesis using r k by blast
qed

lemma expire_forms_fixed:
  "set ks \<subseteq> fst ` set d \<Longrightarrow> (\<forall>f l. map_of d f = Some l \<longrightarrow> prune self now l = l) \<Longrightarrow>
   expire_forms self now ks d dts = Inr (d, dts)"
proof (induction ks)
  case Nil
  then show ?case by simp
next
  case (Cons k ks)
  then have "k \<in> fst ` set d" by simp
  then have "map_of d k \<noteq> None" by (simp add: map_of_eq_None_iff)
  then obtain l where l: "map_of d k = Some l" by blast
  with Cons.prems have p: "prune self now l = l" by blast
  from Cons have "expire_forms self now ks d dts = Inr (d, dts)" by simp
  with l p show ?case by (simp add: expire_while_full update_triv)
qed

lemma expire_idem:
  assumes "expire self now sess [] = Inr (sess1, dts1)"
  shows "expire self now sess1 [] = Inr (sess1, [])"
proof (cases sess)
  case None
  with assms show ?thesis by (simp add: expire_def)
next
  case (Some s)
  show ?thesis
  proof (cases "details s")
    case None
    with Some assms show ?thesis by (simp add: expire_def)
  next
    case sd: (Some sd)
    show ?thesis
    proof (cases "csrf sd")
      case None
      with Some sd assms show ?thesis by (auto simp: expire_def)
    next
      case d: (Some d)
      from expire_forms_all[of self now d "[]"] obtain d' dts' where
        r: "expire_forms self now (map fst d) d [] = Inr (d', dts')"
        and m: "\<forall>f. map_of d' f = map_option (prune self now) (map_of d f)"
        by blast
      have fixed: "\<forall>f l. map_of d' f = Some l \<longrightarrow> prune self now l = l"
        using m by (auto simp: prune_idem)
      have "expire_forms self now (map fst d') d' [] = Inr (d', [])"
        using expire_forms_fixed[OF _ fixed, of "map fst d'" "[]"] by simp
      moreover have "sess1 = Some (s\<lparr>details := Some (sd\<lparr>csrf := Some d'\<rparr>)\<rparr>)"
        using assms Some sd d r by (simp add: expire_def)
      ultimately show ?thesis by (simp add: expire_def)
    qed
  qed
qed

section \<open>Reading and writing the session\<close>

lemma csrf_get_plain:
  "plain_name k \<Longrightarrow> csrf_get d k = (case map_of d k of Some l \<Rightarrow> Stored l | None \<Rightarrow> Absent)"
  by (simp add: csrf_get_def object_get_def plain_name_def split: option.splits)

lemma session_form_plain:
  "plain_name f \<Longrightarrow>
   session_form sess f = (case own_list sess f of Some l \<Rightarrow> Stored l | None \<Rightarrow> Absent)"
  by (simp add: session_form_def own_list_def csrf_get_plain split: option.splits)

lemma session_form_own:
  "own_list sess f = Some l \<Longrightarrow> session_form sess f = Stored l"
  by (auto simp: session_form_def own_list_def csrf_get_def split: option.splits)

lemma own_list_has_details: "own_list sess f = Some l \<Longrightarrow> has_details sess"
  by (auto simp: own_list_def has_details_def split: option.splits)

lemma session_array_has_details:
  "has_details sess \<Longrightarrow> session_array sess f = Inr (session_form sess f)"
  by (auto simp: has_details_def session_array_def session_form_def split: option.splits)

lemma has_details_set_form: "has_details sess \<Longrightarrow> has_details (set_form sess f l)"
  by (auto simp: has_details_def set_form_def split: option.splits)

lemma own_list_set_form_same:
  "own_list sess f = Some l0 \<Longrightarrow> own_list (set_form sess f l) f = Some l"
  by (auto simp: own_list_def set_form_def update_conv' split: option.splits)

lemma own_list_set_form_other:
  "g \<noteq> f \<Longrightarrow> own_list (set_form sess f l) g = own_list sess g"
  by (auto simp: own_list_def set_form_def update_conv' split: option.splits)

lemma set_form_Some: "\<exists>s'. set_form (Some s) f l = Some s'"
  by (simp add: set_form_def split: option.splits)

lemma save_calls:
  "\<exists>c. fst (save self sess dts) = [c] \<and> call_body c = \<lparr> csrf = Some dts \<rparr>"
  by (auto simp: save_def Let_def call_body_def split: option.splits)


lemma expire_session:
  assumes "own_list (Some s) form = Some l"
  shows "\<exists>s1 dts. expire self now (Some s) [] = Inr (Some s1, dts)
           \<and> id_session s1 = id_session s
           \<and> (\<forall>k. own_list (Some s1) k = map_option (prune self now) (own_list (Some s) k))
           \<and> (\<forall>k. map_of dts k =
                 (case own_list (Some s) k of
                    Some l' \<Rightarrow> if prune self now l' \<noteq> l' then Some (prune self now l') else None
                  | None \<Rightarrow> None))"
proof -
  from assms obtain sd d where sd: "details s = Some sd" and d: "csrf sd = Some d"
    by (auto simp: own_list_def split: option.splits)
  from expire_forms_all[of self now d "[]"] obtain d' dts' where
    r: "expire_forms self now (map fst d) d [] = Inr (d', dts')"
    and m: "\<forall>f. map_of d' f = map_option (prune self now) (map_of d f)"
    and t: "\<forall>f. map_of dts' f =
            (case map_of d f of
               Some l \<Rightarrow> if prune self now l \<noteq> l then Some (prune self now l) else map_of [] f
             | None \<Rightarrow> map_of [] f)"
    by blast
  let ?s1 = "s\<lparr>details := Some (sd\<lparr>csrf := Some d'\<rparr>)\<rparr>"
  have "expire self now (Some s) [] = Inr (Some ?s1, dts')"
    using sd d r by (simp add: expire_def)
  moreover have "\<forall>k. own_list (Some ?s1) k = map_option (prune self now) (own_list (Some s) k)"
    using m sd d by (simp add: own_list_def)
  moreover have "\<forall>k. map_of dts' k =
                 (case own_list (Some s) k of
                    Some l' \<Rightarrow> if prune self now l' \<noteq> l' then Some (prune self now l') else None
                  | None \<Rightarrow> None)"
    using t sd d by (auto simp add: own_list_def split: option.splits)
  ultimately show ?thesis by (intro exI[of _ ?s1] exI[of _ dts']) simp
qed


lemma expire_has_details:
  assumes "has_details sess"
  shows "\<exists>sess1 dts. expire self now sess [] = Inr (sess1, dts) \<and> has_details sess1
          \<and> (\<forall>f. own_list sess1 f = map_option (prune self now) (own_list sess f))"
proof (cases sess)
  case None
  then show ?thesis by (simp add: expire_def has_details_def own_list_def)
next
  case (Some s)
  with assms obtain sd where sd: "details s = Some sd" by (auto simp: has_details_def)
  show ?thesis
  proof (cases "csrf sd")
    case None
    with Some sd show ?thesis by (simp add: expire_def has_details_def own_list_def)
  next
    case d: (Some d)
    from expire_forms_all[of self now d "[]"] obtain d' dts' where
      r: "expire_forms self now (map fst d) d [] = Inr (d', dts')"
      and m: "\<forall>f. map_of d' f = map_option (prune self now) (map_of d f)"
      by blast
    with Some sd d show ?thesis by (simp add: expire_def has_details_def own_list_def)
  qed
qed

lemma expire_Inr_has_details:
  "expire self now sess dts = Inr (sess1, dts1) \<Longrightarrow> has_details sess"
  by (auto simp: expire_def has_details_def split: option.splits)

section \<open>The loop of \<open>validate\<close>\<close>

lemma validate_absent:
  "session_form sess form = Absent \<Longrightarrow>
   validate self scmp am now form sess bdy =
     Inr \<lparr> ret = False, val_cb = ValOk False None, val_calls = [], val_session = sess \<rparr>"
  by (simp add: validate_def)

lemma validate_unfold:
  assumes sf: "own_list (Some s) form = Some l"
    and pn: "plain_name form" and np: "no_proto_key (Some s)"
  shows "\<exists>s1 dts. expire self now (Some s) [] = Inr (Some s1, dts)
           \<and> own_list (Some s1) form = Some (prune self now l)
           \<and> no_proto_key (Some s1)
           \<and> id_session s1 = id_session s
           \<and> validate self scmp am now form (Some s) bdy =
               validate_loop self scmp form (Some s1) bdy dts (prune self now l) 0"
proof -
  from expire_session[OF sf, of self now] obtain s1 dts where
    e: "expire self now (Some s) [] = Inr (Some s1, dts)"
    and i: "id_session s1 = id_session s"
    and o: "\<forall>k. own_list (Some s1) k = map_option (prune self now) (own_list (Some s) k)"
    and t: "\<forall>k. map_of dts k =
                 (case own_list (Some s) k of
                    Some l' \<Rightarrow> if prune self now l' \<noteq> l' then Some (prune self now l') else None
                  | None \<Rightarrow> None)"
    by blast
  have f1: "own_list (Some s1) form = Some (prune self now l)" using o sf by simp
  have np1: "no_proto_key (Some s1)" using o np by (simp add: no_proto_key_def)
  have pr: "map_of dts ''__proto__'' = None" using t np by (simp add: no_proto_key_def)
  have og: "object_get form = Absent"
    using pn by (simp add: object_get_def plain_name_def)
  have dg: "details_get am dts form
              = (if prune self now l \<noteq> l then Stored (prune self now l) else Absent)"
    using t sf pr og by (simp add: details_get_def)
  have "validate self scmp am now form (Some s) bdy =
               validate_loop self scmp form (Some s1) bdy dts (prune self now l) 0"
    using e dg session_form_own[OF sf] by (simp add: validate_def Let_def)
  with e f1 np1 i show ?thesis by blast
qed

lemma validate_loop_none:
  "(\<forall>k. i \<le> k \<and> k < length l \<longrightarrow> \<not> matches self scmp b (l ! k)) \<Longrightarrow>
   validate_loop self scmp form sess (Some b) dts l i =
     Inr \<lparr> ret = False, val_cb = ValOk False None, val_calls = [], val_session = sess \<rparr>"
proof (induction "length l - i" arbitrary: i)
  case 0
  then show ?case by (simp add: validate_loop.simps[of _ _ _ _ _ _ l i])
next
  case (Suc n)
  then have il: "i < length l" by simp
  with Suc.prems have nm: "\<not> matches self scmp b (l ! i)" by simp
  have "validate_loop self scmp form sess (Some b) dts l (Suc i) =
     Inr \<lparr> ret = False, val_cb = ValOk False None, val_calls = [], val_session = sess \<rparr>"
    using Suc.hyps(1)[of "Suc i"] Suc.hyps(2) Suc.prems by simp
  with il nm show ?case
    by (simp add: validate_loop.simps[of _ _ _ _ _ _ l i] matches_def)
qed

lemma validate_loop_first:
  "i \<le> m \<Longrightarrow> m < length l \<Longrightarrow> matches self scmp b (l ! m) \<Longrightarrow>
   (\<forall>k. i \<le> k \<and> k < m \<longrightarrow> \<not> matches self scmp b (l ! k)) \<Longrightarrow>
   validate_loop self scmp form sess (Some b) dts l i = Inr (hit self form sess dts l m)"
proof (induction "m - i" arbitrary: i)
  case 0
  then have "i = m" by simp
  with 0 show ?case
    by (simp add: validate_loop.simps[of _ _ _ _ _ _ l m] matches_def hit_def Let_def
             split: prod.splits save_cb.splits)
next
  case (Suc n)
  then have im: "i < m" by simp
  with Suc.prems have nm: "\<not> matches self scmp b (l ! i)" by simp
  have "validate_loop self scmp form sess (Some b) dts l (Suc i) = Inr (hit self form sess dts l m)"
    using Suc.hyps(1)[of "Suc i"] Suc.hyps(2) Suc.prems im by simp
  with im nm Suc.prems(2) show ?case
    by (simp add: validate_loop.simps[of _ _ _ _ _ _ l i] matches_def)
qed

lemma validate_loop_total:
  "\<exists>out. validate_loop self scmp form sess (Some b) dts l i = Inr out"
proof (induction "length l - i" arbitrary: i)
  case 0
  then show ?case by (simp add: validate_loop.simps[of _ _ _ _ _ _ l i])
next
  case (Suc n)
  then have "\<exists>out. validate_loop self scmp form sess (Some b) dts l (Suc i) = Inr out"
    by simp
  then show ?case
    by (auto simp add: validate_loop.simps[of _ _ _ _ _ _ l i] Let_def
             split: prod.splits save_cb.splits)
qed

lemma validate_loop_ret_cases:
  "validate_loop self scmp form sess bdy dts l i = Inr out \<Longrightarrow>
     (\<not> ret out \<longrightarrow> val_calls out = [] \<and> val_session out = sess \<and> val_cb out = ValOk False None)
   \<and> (ret out \<longrightarrow> (\<exists>b m. bdy = Some b \<and> i \<le> m \<and> m < length l \<and> matches self scmp b (l ! m)))"
proof (induction "length l - i" arbitrary: i)
  case 0
  then show ?case by (auto simp add: validate_loop.simps[of _ _ _ _ _ _ l i])
next
  case (Suc n)
  then have il: "i < length l" by simp
  show ?case
  proof (cases bdy)
    case None
    with Suc.prems il show ?thesis by (simp add: validate_loop.simps[of _ _ _ _ _ _ l i])
  next
    case (Some b)
    show ?thesis
    proof (cases "matches self scmp b (l ! i)")
      case True
      with il Some Suc.prems have "ret out"
        by (auto simp add: validate_loop.simps[of _ _ _ _ _ _ l i] matches_def Let_def
             split: prod.splits save_cb.splits if_splits)
      with True il Some show ?thesis by auto
    next
      case False
      with il Some Suc.prems have nx: "validate_loop self scmp form sess bdy dts l (Suc i) = Inr out"
        by (simp add: validate_loop.simps[of _ _ _ _ _ _ l i] matches_def)
      have n: "n = length l - Suc i" using Suc.hyps(2) by simp
      have le: "\<And>m. Suc i \<le> m \<Longrightarrow> i \<le> m" by simp
      from Suc.hyps(1)[OF n nx] le show ?thesis
        by blast
    qed
  qed
qed

lemma hit_ret: "ret (hit self form sess dts l m)"
  by (simp add: hit_def split: prod.splits save_cb.splits)

lemma hit_keep:
  "\<not> expireAfterUse (config self) \<Longrightarrow> val_session (hit self form sess dts l m) = sess"
  by (simp add: hit_def)

lemma hit_remove:
  "expireAfterUse (config self) \<Longrightarrow>
   val_session (hit self form sess dts l m) = set_form sess form (splice1 m l)"
  by (simp add: hit_def split: prod.splits save_cb.splits)

lemma validate_loop_here:
  "m < length l \<Longrightarrow> matches self scmp b (l ! m) \<Longrightarrow>
   validate_loop self scmp form sess (Some b) dts l m = Inr (hit self form sess dts l m)"
  by (rule validate_loop_first) auto

lemma validate_loop_some:
  "i \<le> m \<Longrightarrow> m < length l \<Longrightarrow> matches self scmp b (l ! m) \<Longrightarrow>
   \<exists>out. validate_loop self scmp form sess (Some b) dts l i = Inr out \<and> ret out
     \<and> (\<not> expireAfterUse (config self) \<longrightarrow> val_session out = sess)"
proof (induction "m - i" arbitrary: i)
  case 0
  then have "i = m" by simp
  with 0 validate_loop_here[of m l self scmp b form sess dts] show ?case
    by (simp add: hit_ret hit_keep)
next
  case (Suc n)
  then have il: "i < length l" by simp
  show ?case
  proof (cases "matches self scmp b (l ! i)")
    case True
    with il validate_loop_here[of i l self scmp b form sess dts] show ?thesis
      by (simp add: hit_ret hit_keep)
  next
    case False
    from Suc have "\<exists>out. validate_loop self scmp form sess (Some b) dts l (Suc i) = Inr out
        \<and> ret out \<and> (\<not> expireAfterUse (config self) \<longrightarrow> val_session out = sess)"
      by simp
    with il False show ?thesis
      by (simp add: validate_loop.simps[of _ _ _ _ _ _ l i] matches_def)
  qed
qed

lemma map_of_json_own: "k \<noteq> ''__proto__'' \<Longrightarrow> map_of (json_own D) k = map_of D k"
  by (induction D) (auto simp: json_own_def)

lemma hit_calls:
  "expireAfterUse (config self) \<Longrightarrow> form \<noteq> ''__proto__'' \<Longrightarrow>
   persisted_form (val_calls (hit self form sess dts l m)) form = Some (splice1 m l)"
proof -
  assume e: "expireAfterUse (config self)" and f: "form \<noteq> ''__proto__''"
  let ?sv = "save self (set_form sess form (splice1 m l)) (AList.update form (splice1 m l) dts)"
  have j: "\<And>D. map_of (json_own D) form = map_of D form"
    using f by (rule map_of_json_own)
  from save_calls[of self "set_form sess form (splice1 m l)" "AList.update form (splice1 m l) dts"]
  have "persisted_form (fst ?sv) form = map_of (AList.update form (splice1 m l) dts) form"
    by (auto simp: persisted_form_def j)
  moreover have "val_calls (hit self form sess dts l m) = fst ?sv"
    using e by (simp add: hit_def split: prod.splits save_cb.splits)
  ultimately show ?thesis by (simp add: update_conv')
qed

lemma validate_not_matched_calls:
  assumes "validate self scmp am now form sess bdy = Inr out" and "\<not> ret out"
  shows "val_calls out = []"
proof (cases "truthy (session_form sess form)")
  case False
  with assms show ?thesis by (auto simp: validate_def Let_def)
next
  case True
  from assms(1) True obtain sess1 dts where e: "expire self now sess [] = Inr (sess1, dts)"
    by (cases "expire self now sess []") (auto simp: validate_def Let_def)
  let ?found = "details_get am dts form"
  let ?csrf1 = "if truthy ?found then ?found else session_form sess form"
  show ?thesis
  proof (cases ?csrf1)
    case Absent
    with assms(1) True e show ?thesis by (simp add: validate_def Let_def)
  next
    case (Stored l)
    with assms(1) True e have "validate_loop self scmp form sess1 bdy dts l 0 = Inr out"
      by (simp add: validate_def Let_def)
    from validate_loop_ret_cases[OF this] assms(2) show ?thesis by simp
  next
    case (Inherited v)
    with assms True e show ?thesis
      by (cases v) (auto simp: validate_def Let_def split: if_splits)
  qed
qed

lemma validate_body_total:
  assumes pn: "plain_name form" and np: "no_proto_key sess"
  shows "\<exists>out. validate self scmp am now form sess (Some b) = Inr out
     \<and> (ret out \<longrightarrow> (\<exists>c \<in> set (stored sess form). alive self now c \<and> matches self scmp b c))"
proof (cases "own_list sess form")
  case None
  then have "session_form sess form = Absent" using pn by (simp add: session_form_plain)
  then show ?thesis by (simp add: validate_absent)
next
  case (Some l)
  then obtain s where s: "sess = Some s" by (cases sess) (simp_all add: own_list_def)
  from validate_unfold[OF Some[unfolded s] pn np[unfolded s], of self now scmp am "Some b"]
  obtain s1 dts where
    v: "validate self scmp am now form (Some s) (Some b) =
               validate_loop self scmp form (Some s1) (Some b) dts (prune self now l) 0"
    by blast
  from validate_loop_total[of self scmp form "Some s1" b dts "prune self now l" 0] obtain out where
    out: "validate_loop self scmp form (Some s1) (Some b) dts (prune self now l) 0 = Inr out"
    by blast
  have "\<exists>c \<in> set (stored sess form). alive self now c \<and> matches self scmp b c" if "ret out"
  proof -
    from validate_loop_ret_cases[OF out] that obtain m where
      m: "m < length (prune self now l)" "matches self scmp b (prune self now l ! m)"
      by auto
    from m(1) have "prune self now l ! m \<in> set (prune self now l)" by simp
    then have "prune self now l ! m \<in> set l \<and> alive self now (prune self now l ! m)"
      by (simp add: set_prune)
    with m(2) Some show ?thesis by (auto simp: stored_def)
  qed
  with v out s show ?thesis by simp
qed

lemma validate_none_match:
  assumes sf: "own_list (Some s) form = Some l"
    and pn: "plain_name form" and np: "no_proto_key (Some s)"
    and nm: "\<forall>c \<in> set l. alive self now c \<longrightarrow> \<not> matches self scmp b c"
  shows "\<exists>out. validate self scmp am now form (Some s) (Some b) = Inr out \<and> \<not> ret out"
  using validate_body_total[OF pn np, of self scmp am now b] sf nm
  by (auto simp: stored_def)

lemma validate_some_match:
  assumes sf: "own_list (Some s) form = Some l"
    and pn: "plain_name form" and np: "no_proto_key (Some s)"
    and c: "c \<in> set l" "alive self now c" "matches self scmp b c"
  shows "\<exists>out s1. validate self scmp am now form (Some s) (Some b) = Inr out \<and> ret out
           \<and> own_list (Some s1) form = Some (prune self now l)
           \<and> no_proto_key (Some s1)
           \<and> (\<not> expireAfterUse (config self) \<longrightarrow> val_session out = Some s1)"
proof -
  from validate_unfold[OF sf pn np, of self now scmp am "Some b"] obtain s1 dts where
    f: "own_list (Some s1) form = Some (prune self now l)"
    and n1: "no_proto_key (Some s1)"
    and v: "validate self scmp am now form (Some s) (Some b) =
               validate_loop self scmp form (Some s1) (Some b) dts (prune self now l) 0"
    by blast
  from c have "c \<in> set (prune self now l)" by (simp add: set_prune)
  then obtain m where m: "m < length (prune self now l)" "prune self now l ! m = c"
    by (auto simp: in_set_conv_nth)
  from validate_loop_some[of 0 m "prune self now l" self scmp b form "Some s1" dts] m c(3)
  obtain out where
    "validate_loop self scmp form (Some s1) (Some b) dts (prune self now l) 0 = Inr out"
    "ret out" "\<not> expireAfterUse (config self) \<longrightarrow> val_session out = Some s1"
    by auto
  with v f n1 show ?thesis by auto
qed

lemma no_proto_key_set_form:
  "f \<noteq> ''__proto__'' \<Longrightarrow> no_proto_key sess \<Longrightarrow> no_proto_key (set_form sess f l)"
  by (simp add: no_proto_key_def own_list_set_form_other)

lemma validate_first_hit:
  assumes sf: "own_list (Some s) f = Some (pre @ [c])"
    and pn: "plain_name f" and np: "no_proto_key (Some s)"
    and al: "alive self now c"
    and mc: "matches self scmp b c"
    and fresh: "\<forall>c' \<in> set pre. \<not> matches self scmp b c'"
  shows "\<exists>s1 dts. own_list (Some s1) f = Some (prune self now pre @ [c])
           \<and> no_proto_key (Some s1)
           \<and> validate self scmp am now f (Some s) (Some b)
               = Inr (hit self f (Some s1) dts (prune self now pre @ [c])
                        (length (prune self now pre)))"
proof -
  let ?L = "prune self now pre @ [c]"
  have pl: "prune self now (pre @ [c]) = ?L" by (rule prune_snoc[OF al])
  from validate_unfold[OF sf pn np, of self now scmp am "Some b"] pl obtain s1 dts where
    f1: "own_list (Some s1) f = Some ?L"
    and n1: "no_proto_key (Some s1)"
    and v: "validate self scmp am now f (Some s) (Some b) =
               validate_loop self scmp f (Some s1) (Some b) dts ?L 0"
    by auto
  have nm: "\<forall>k. 0 \<le> k \<and> k < length (prune self now pre) \<longrightarrow> \<not> matches self scmp b (?L ! k)"
  proof (intro allI impI)
    fix k assume k: "0 \<le> k \<and> k < length (prune self now pre)"
    then have "?L ! k = prune self now pre ! k" by (simp add: nth_append)
    moreover from k have "prune self now pre ! k \<in> set (prune self now pre)" by simp
    ultimately have "?L ! k \<in> set pre" by (simp add: set_prune)
    with fresh show "\<not> matches self scmp b (?L ! k)" by blast
  qed
  have "validate_loop self scmp f (Some s1) (Some b) dts ?L 0
          = Inr (hit self f (Some s1) dts ?L (length (prune self now pre)))"
    by (rule validate_loop_first[OF _ _ _ nm]) (simp_all add: mc)
  with v f1 n1 show ?thesis by auto
qed

lemma validate_round_trip:
  assumes sf: "own_list (Some s) f = Some (pre @ [c])"
    and pn: "plain_name f" and np: "no_proto_key (Some s)"
    and al: "alive self now c"
    and mc: "matches self scmp b c"
  shows "\<exists>out. validate self scmp am now f (Some s) (Some b) = Inr out \<and> ret out
           \<and> (\<not> expireAfterUse (config self) \<longrightarrow>
                (\<exists>out2. validate self scmp am now f (val_session out) (Some b) = Inr out2
                   \<and> ret out2))
           \<and> (expireAfterUse (config self) \<and> (\<forall>c' \<in> set pre. \<not> matches self scmp b c') \<longrightarrow>
                (\<exists>out2. validate self scmp am now f (val_session out) (Some b) = Inr out2
                   \<and> \<not> ret out2)
                \<and> (\<forall>s2. own_list (Some s2) f = persisted_form (val_calls out) f
                          \<and> no_proto_key (Some s2) \<longrightarrow>
                     (\<exists>out2. validate self scmp am now f (Some s2) (Some b) = Inr out2
                        \<and> \<not> ret out2)))"
proof -
  have fp: "f \<noteq> ''__proto__''" using pn by (simp add: plain_name_def)
  have cl: "c \<in> set (pre @ [c])" by simp
  from validate_some_match[OF sf pn np cl al mc, of am] obtain out s1 where
    o: "validate self scmp am now f (Some s) (Some b) = Inr out" "ret out"
    and f1: "own_list (Some s1) f = Some (prune self now (pre @ [c]))"
    and n1: "no_proto_key (Some s1)"
    and k: "\<not> expireAfterUse (config self) \<longrightarrow> val_session out = Some s1"
    by blast
  have keep: "\<exists>out2. validate self scmp am now f (val_session out) (Some b) = Inr out2 \<and> ret out2"
    if ne: "\<not> expireAfterUse (config self)"
  proof -
    have "c \<in> set (prune self now (pre @ [c]))" using al by (simp add: set_prune)
    from validate_some_match[OF f1 pn n1 this al mc, of am] k ne show ?thesis by auto
  qed
  have gone: "(\<exists>out2. validate self scmp am now f (val_session out) (Some b) = Inr out2
                   \<and> \<not> ret out2)
                \<and> (\<forall>s2. own_list (Some s2) f = persisted_form (val_calls out) f
                          \<and> no_proto_key (Some s2) \<longrightarrow>
                     (\<exists>out2. validate self scmp am now f (Some s2) (Some b) = Inr out2
                        \<and> \<not> ret out2))"
    if e: "expireAfterUse (config self)" and fresh: "\<forall>c' \<in> set pre. \<not> matches self scmp b c'"
  proof -
    let ?L = "prune self now pre @ [c]"
    let ?m = "length (prune self now pre)"
    from validate_first_hit[OF sf pn np al mc fresh, of am] o(1) obtain s1' dts where
      f1': "own_list (Some s1') f = Some ?L" and n1': "no_proto_key (Some s1')"
      and h: "out = hit self f (Some s1') dts ?L ?m"
      by auto
    have sp: "splice1 ?m ?L = prune self now pre" by (simp add: splice1_def)
    from set_form_Some[of s1' f "prune self now pre"] obtain s2 where
      s2: "set_form (Some s1') f (prune self now pre) = Some s2" by blast
    have f2: "own_list (Some s2) f = Some (prune self now pre)"
      using own_list_set_form_same[OF f1', of "prune self now pre"] s2 by simp
    have n2: "no_proto_key (Some s2)"
      using no_proto_key_set_form[OF fp n1', of "prune self now pre"] s2 by simp
    have vs: "val_session out = Some s2" using h hit_remove[OF e] sp s2 by simp
    have pc: "persisted_form (val_calls out) f = Some (prune self now pre)"
      using h hit_calls[OF e fp] sp by simp
    have nm: "\<forall>c' \<in> set (prune self now pre). alive self now c' \<longrightarrow> \<not> matches self scmp b c'"
      using fresh by (simp add: set_prune)
    have a: "\<exists>out2. validate self scmp am now f (val_session out) (Some b) = Inr out2 \<and> \<not> ret out2"
      using validate_none_match[OF f2 pn n2 nm, of am] vs by simp
    have b: "\<exists>out2. validate self scmp am now f (Some s2') (Some b) = Inr out2 \<and> \<not> ret out2"
      if "own_list (Some s2') f = persisted_form (val_calls out) f" "no_proto_key (Some s2')"
      for s2'
    proof -
      from that(1) pc have "own_list (Some s2') f = Some (prune self now pre)" by simp
      from validate_none_match[OF this pn that(2) nm, of am] show ?thesis .
    qed
    from a b show ?thesis by blast
  qed
  from o keep gone show ?thesis by blast
qed

section \<open>The loop of \<open>generate\<close>\<close>

lemma session_form_not_own:
  "own_list sess g = None \<Longrightarrow>
   session_form sess g = Absent
   \<or> (\<exists>v. session_form sess g = Inherited v \<and> (\<forall>n. v \<noteq> Number_val n))"
  by (auto simp: session_form_def own_list_def csrf_get_def object_get_def
        split: option.splits)

lemma generate_loop_step:
  assumes h: "has_details sess"
    and r: "generate_loop self rnd i (g # fs) sess dts resp = Inr r"
  shows "\<exists>c. generateCredentials self (rnd i) = Inr c
           \<and> generate_loop self rnd (Suc i) fs
               (case own_list sess g of
                  Some l \<Rightarrow> set_form sess g (evict self (stored sess g) @ [c])
                | None \<Rightarrow> sess)
               (AList.update g (evict self (stored sess g) @ [c]) dts)
               (AList.update g c resp) = Inr r"
proof (cases "own_list sess g")
  case (Some l)
  then have sf: "session_form sess g = Stored l" by (rule session_form_own)
  from r obtain c where c: "generateCredentials self (rnd i) = Inr c"
    by (cases "generateCredentials self (rnd i)")
       (simp_all add: session_array_has_details[OF h] sf Let_def)
  with r Some sf show ?thesis
    by (simp add: session_array_has_details[OF h] stored_def evict_def Let_def)
next
  case None
  from session_form_not_own[OF None] show ?thesis
  proof
    assume sf: "session_form sess g = Absent"
    from r obtain c where c: "generateCredentials self (rnd i) = Inr c"
      by (cases "generateCredentials self (rnd i)")
         (simp_all add: session_array_has_details[OF h] sf Let_def)
    with r None sf show ?thesis
      by (simp add: session_array_has_details[OF h] stored_def evict_def Let_def)
  next
    assume "\<exists>v. session_form sess g = Inherited v \<and> (\<forall>n. v \<noteq> Number_val n)"
    then obtain v where sf: "session_form sess g = Inherited v" and nn: "\<forall>n. v \<noteq> Number_val n"
      by blast
    from nn have "truthy (Inherited v)" by (cases v) simp_all
    with r sf have False
      by (simp add: session_array_has_details[OF h] split: if_splits sum.splits)
    then show ?thesis ..
  qed
qed


lemma generate_loop_Cons:
  assumes "has_details sess" "plain_name g" "generateCredentials self (rnd i) = Inr c"
  shows "generate_loop self rnd i (g # fs) sess dts resp =
     generate_loop self rnd (Suc i) fs
       (case own_list sess g of
          Some l \<Rightarrow> set_form sess g (evict self (stored sess g) @ [c])
        | None \<Rightarrow> sess)
       (AList.update g (evict self (stored sess g) @ [c]) dts)
       (AList.update g c resp)"
  using assms
  by (simp add: session_array_has_details session_form_plain stored_def evict_def Let_def
        split: option.splits)

lemma has_details_step:
  "has_details sess \<Longrightarrow>
   has_details (case own_list sess g of Some l \<Rightarrow> set_form sess g l' | None \<Rightarrow> sess)"
  by (simp add: has_details_set_form split: option.splits)

lemma own_list_step_other:
  "f \<noteq> g \<Longrightarrow>
   own_list (case own_list sess g of Some l \<Rightarrow> set_form sess g l' | None \<Rightarrow> sess) f
     = own_list sess f"
  by (simp add: own_list_set_form_other split: option.splits)

lemma generate_loop_total:
  "has_details sess \<Longrightarrow> \<forall>g \<in> set fs. plain_name g \<Longrightarrow>
   \<forall>k < length fs. \<exists>c. generateCredentials self (rnd (i + k)) = Inr c \<Longrightarrow>
   \<exists>sess' D R. generate_loop self rnd i fs sess dts resp = Inr (sess', D, R)"
proof (induction fs arbitrary: i sess dts resp)
  case Nil
  then show ?case by simp
next
  case (Cons g fs)
  from Cons.prems(3)[rule_format, of 0] obtain c where
    c: "generateCredentials self (rnd i) = Inr c" by auto
  from Cons.prems(2) have pg: "plain_name g" and pf: "\<forall>g \<in> set fs. plain_name g" by simp_all
  have dr: "\<forall>k < length fs. \<exists>c. generateCredentials self (rnd (Suc i + k)) = Inr c"
    using Cons.prems(3) by auto
  from Cons.IH[OF has_details_step[OF Cons.prems(1)] pf dr] show ?case
    by (simp only: generate_loop_Cons[where rnd=rnd and i=i, OF Cons.prems(1) pg c])
qed

lemma generate_loop_other:
  "has_details sess \<Longrightarrow> f \<notin> set fs \<Longrightarrow>
   generate_loop self rnd i fs sess dts resp = Inr (sess', D, R) \<Longrightarrow>
   own_list sess' f = own_list sess f \<and> map_of D f = map_of dts f \<and> map_of R f = map_of resp f"
proof (induction fs arbitrary: i sess dts resp)
  case Nil
  then show ?case by simp
next
  case (Cons g fs)
  then have gf: "f \<noteq> g" and nf: "f \<notin> set fs" by auto
  from generate_loop_step[OF Cons.prems(1) Cons.prems(3)] obtain c where
    step: "generate_loop self rnd (Suc i) fs
       (case own_list sess g of
          Some l \<Rightarrow> set_form sess g (evict self (stored sess g) @ [c])
        | None \<Rightarrow> sess)
       (AList.update g (evict self (stored sess g) @ [c]) dts)
       (AList.update g c resp) = Inr (sess', D, R)"
    by blast
  from Cons.IH[OF has_details_step[OF Cons.prems(1)] nf step] gf show ?case
    by (simp add: update_conv' own_list_step_other)
qed

lemma generate_loop_once:
  "has_details sess \<Longrightarrow> f \<notin> set pre \<Longrightarrow> f \<notin> set rest \<Longrightarrow>
   generate_loop self rnd i (pre @ f # rest) sess dts resp = Inr (sess', D, R) \<Longrightarrow>
   \<exists>c. generateCredentials self (rnd (i + length pre)) = Inr c
      \<and> map_of D f = Some (evict self (stored sess f) @ [c])
      \<and> map_of R f = Some c"
proof (induction pre arbitrary: i sess dts resp)
  case Nil
  from generate_loop_step[OF Nil.prems(1), of self rnd i f rest dts resp "(sess', D, R)"]
    Nil.prems(4)
  obtain c where c: "generateCredentials self (rnd i) = Inr c"
    and step: "generate_loop self rnd (Suc i) rest
       (case own_list sess f of
          Some l \<Rightarrow> set_form sess f (evict self (stored sess f) @ [c])
        | None \<Rightarrow> sess)
       (AList.update f (evict self (stored sess f) @ [c]) dts)
       (AList.update f c resp) = Inr (sess', D, R)"
    by auto
  from generate_loop_other[OF has_details_step[OF Nil.prems(1)] Nil.prems(3) step] c
  show ?case by (simp add: update_conv')
next
  case (Cons g pre)
  then have gf: "f \<noteq> g" and nf: "f \<notin> set pre" by auto
  from generate_loop_step[OF Cons.prems(1), of self rnd i g "pre @ f # rest" dts resp
         "(sess', D, R)"] Cons.prems(4)
  obtain c where
    step: "generate_loop self rnd (Suc i) (pre @ f # rest)
       (case own_list sess g of
          Some l \<Rightarrow> set_form sess g (evict self (stored sess g) @ [c])
        | None \<Rightarrow> sess)
       (AList.update g (evict self (stored sess g) @ [c]) dts)
       (AList.update g c resp) = Inr (sess', D, R)"
    by auto
  have st: "stored (case own_list sess g of
          Some l \<Rightarrow> set_form sess g (evict self (stored sess g) @ [c])
        | None \<Rightarrow> sess) f = stored sess f"
    using gf by (simp add: stored_def own_list_step_other)
  from Cons.IH[OF has_details_step[OF Cons.prems(1)] nf Cons.prems(3) step] st
  show ?case by simp
qed

lemma generate_loop_resp:
  "has_details sess \<Longrightarrow>
   generate_loop self rnd i fs sess dts resp = Inr (sess', D, R) \<Longrightarrow>
   (\<forall>f c. map_of resp f = Some c \<longrightarrow> (\<exists>pre. map_of dts f = Some (pre @ [c]))) \<Longrightarrow>
   (\<forall>f c. map_of R f = Some c \<longrightarrow> (\<exists>pre. map_of D f = Some (pre @ [c])))"
proof (induction fs arbitrary: i sess dts resp)
  case Nil
  then show ?case by simp
next
  case (Cons g fs)
  from generate_loop_step[OF Cons.prems(1) Cons.prems(2)] obtain c where
    step: "generate_loop self rnd (Suc i) fs
       (case own_list sess g of
          Some l \<Rightarrow> set_form sess g (evict self (stored sess g) @ [c])
        | None \<Rightarrow> sess)
       (AList.update g (evict self (stored sess g) @ [c]) dts)
       (AList.update g c resp) = Inr (sess', D, R)"
    by blast
  have inv: "\<forall>f c'. map_of (AList.update g c resp) f = Some c'
               \<longrightarrow> (\<exists>pre. map_of (AList.update g (evict self (stored sess g) @ [c]) dts) f
                            = Some (pre @ [c']))"
    using Cons.prems(3) by (auto simp: update_conv')
  from Cons.IH[OF has_details_step[OF Cons.prems(1)] step inv] show ?case .
qed


lemma evict_length:
  "0 < maxTokens (config self) \<Longrightarrow> int (length l) \<le> maxTokens (config self) \<Longrightarrow>
   int (length (evict self l @ [c])) = min (int (length l) + 1) (maxTokens (config self))"
  by (cases l) (auto simp: evict_def)

lemma generate_returned:
  assumes "generate self now rnd sess forms = Inr out"
  shows "\<exists>sess1 dts1 sess2 D R.
           expire self now sess [] = Inr (sess1, dts1) \<and> has_details sess \<and> has_details sess1
           \<and> (\<forall>f. own_list sess1 f = map_option (prune self now) (own_list sess f))
           \<and> generate_loop self rnd 0 (forms_list forms) sess1 dts1 [] = Inr (sess2, D, R)
           \<and> out = \<lparr> gen_calls = fst (save self sess2 D),
                     gen_cb = (case snd (save self sess2 D) of
                                 SaveErr e \<Rightarrow> GenErr e
                               | SaveOk s fresh \<Rightarrow> GenOk R s fresh),
                     gen_session = sess2 \<rparr>"
proof -
  from assms obtain sess1 dts1 where e: "expire self now sess [] = Inr (sess1, dts1)"
    by (cases "expire self now sess []") (auto simp: generate_def)
  have h: "has_details sess" by (rule expire_Inr_has_details[OF e])
  from expire_has_details[OF h, of self now] e have h1: "has_details sess1"
    and f: "\<forall>f. own_list sess1 f = map_option (prune self now) (own_list sess f)"
    by auto
  from assms e obtain sess2 D R where
    g: "generate_loop self rnd 0 (forms_list forms) sess1 dts1 [] = Inr (sess2, D, R)"
    by (cases "generate_loop self rnd 0 (forms_list forms) sess1 dts1 []")
       (auto simp: generate_def Let_def forms_list_def)
  from assms e g have "out = \<lparr> gen_calls = fst (save self sess2 D),
                     gen_cb = (case snd (save self sess2 D) of
                                 SaveErr e \<Rightarrow> GenErr e
                               | SaveOk s fresh \<Rightarrow> GenOk R s fresh),
                     gen_session = sess2 \<rparr>"
    by (auto simp: generate_def Let_def forms_list_def split: prod.splits save_cb.splits)
  with e h h1 f g show ?thesis by blast
qed

lemma generate_total:
  assumes h: "has_details sess" and p: "\<forall>g \<in> set (forms_list forms). plain_name g"
    and d: "draws_ok self rnd (length (forms_list forms))"
  shows "\<exists>out. generate self now rnd sess forms = Inr out"
proof -
  from expire_has_details[OF h, of self now] obtain sess1 dts1 where
    e: "expire self now sess [] = Inr (sess1, dts1)" and h1: "has_details sess1"
    by blast
  have dr: "\<forall>k < length (forms_list forms). \<exists>c. generateCredentials self (rnd (0 + k)) = Inr c"
    using d by (simp add: draws_ok_def)
  from generate_loop_total[OF h1 p dr, of dts1 "[]"] obtain sess2 D R where
    g: "generate_loop self rnd 0 (forms_list forms) sess1 dts1 [] = Inr (sess2, D, R)"
    by blast
  show ?thesis
    using e g by (simp add: generate_def Let_def forms_list_def split: prod.splits save_cb.splits)
qed

lemma generate_calls:
  assumes "generate self now rnd sess forms = Inr out"
  shows "\<exists>c D. gen_calls out = [c] \<and> call_body c = \<lparr> csrf = Some D \<rparr>"
proof -
  from generate_returned[OF assms] obtain sess2 D where
    "gen_calls out = fst (save self sess2 D)" by auto
  with save_calls[of self sess2 D] show ?thesis by auto
qed

lemma generate_thrown:
  assumes "generate self now rnd sess forms = Inl e"
  shows "expire self now sess [] = Inl e
         \<or> (\<exists>sess1 dts1. expire self now sess [] = Inr (sess1, dts1)
              \<and> generate_loop self rnd 0 (forms_list forms) sess1 dts1 [] = Inl e)"
  using assms
  by (auto simp: generate_def Let_def forms_list_def
        split: sum.splits prod.splits save_cb.splits)

lemma persisted_form_save:
  "f \<noteq> ''__proto__'' \<Longrightarrow> persisted_form (fst (save self sess D)) f = map_of D f"
  using save_calls[of self sess D] by (auto simp: persisted_form_def map_of_json_own)

lemma generate_resp_last:
  assumes g: "generate self t0 rnd sess0 forms = Inr gout"
    and cb: "gen_cb gout = GenOk resp sess_cb fresh"
    and c: "map_of resp f = Some c"
    and fp: "f \<noteq> ''__proto__''"
  shows "\<exists>pre. persisted_form (gen_calls gout) f = Some (pre @ [c])"
proof -
  from generate_returned[OF g] obtain sess1 dts1 sess2 D R where
    h1: "has_details sess1"
    and l: "generate_loop self rnd 0 (forms_list forms) sess1 dts1 [] = Inr (sess2, D, R)"
    and o: "gout = \<lparr> gen_calls = fst (save self sess2 D),
                     gen_cb = (case snd (save self sess2 D) of
                                 SaveErr e \<Rightarrow> GenErr e
                               | SaveOk s fresh \<Rightarrow> GenOk R s fresh),
                     gen_session = sess2 \<rparr>"
    by blast
  from o cb have R: "resp = R" by (auto split: save_cb.splits)
  from o have p: "persisted_form (gen_calls gout) f = map_of D f"
    by (simp add: persisted_form_save[OF fp])
  have "\<forall>f c. map_of R f = Some c \<longrightarrow> (\<exists>pre. map_of D f = Some (pre @ [c]))"
    by (rule generate_loop_resp[OF h1 l]) simp
  with c R p show ?thesis by simp
qed

lemma generate_persisted:
  assumes g: "generate self now rnd sess forms = Inr out"
    and fs: "forms_list forms = pre @ f # rest" "f \<notin> set pre" "f \<notin> set rest"
    and fp: "f \<noteq> ''__proto__''"
  shows "\<exists>c. generateCredentials self (rnd (length pre)) = Inr c
           \<and> persisted_form (gen_calls out) f
               = Some (evict self (prune self now (stored sess f)) @ [c])
           \<and> (case gen_cb out of GenOk resp s fresh \<Rightarrow> map_of resp f = Some c | GenErr e \<Rightarrow> True)"
proof -
  from generate_returned[OF g] obtain sess1 dts1 sess2 D R where
    h1: "has_details sess1"
    and f1: "\<forall>f. own_list sess1 f = map_option (prune self now) (own_list sess f)"
    and l: "generate_loop self rnd 0 (forms_list forms) sess1 dts1 [] = Inr (sess2, D, R)"
    and o: "out = \<lparr> gen_calls = fst (save self sess2 D),
                     gen_cb = (case snd (save self sess2 D) of
                                 SaveErr e \<Rightarrow> GenErr e
                               | SaveOk s fresh \<Rightarrow> GenOk R s fresh),
                     gen_session = sess2 \<rparr>"
    by blast
  have st: "stored sess1 f = prune self now (stored sess f)"
    using f1 by (cases "own_list sess f") (simp_all add: stored_def prune_def)
  from generate_loop_once[OF h1 fs(2,3) l[unfolded fs(1)]] st obtain c where
    c: "generateCredentials self (rnd (length pre)) = Inr c"
    and D: "map_of D f = Some (evict self (prune self now (stored sess f)) @ [c])"
    and R: "map_of R f = Some c"
    by auto
  from o D have "persisted_form (gen_calls out) f
               = Some (evict self (prune self now (stored sess f)) @ [c])"
    by (simp add: persisted_form_save[OF fp])
  moreover from o R have
    "case gen_cb out of GenOk resp s fresh \<Rightarrow> map_of resp f = Some c | GenErr e \<Rightarrow> True"
    by (simp split: save_cb.splits)
  ultimately show ?thesis using c by blast
qed

lemma generate_single:
  assumes g: "generate self now rnd sess (Single f) = Inr out" and fp: "f \<noteq> ''__proto__''"
  shows "\<exists>c. generateCredentials self (rnd 0) = Inr c
           \<and> persisted_form (gen_calls out) f
               = Some (evict self (prune self now (stored sess f)) @ [c])"
  using generate_persisted[OF g, of "[]" f "[]"] fp
  by (auto simp: forms_list_def)

lemma three_generations:
  assumes m: "maxTokens (config self) = 2"
    and fp: "f \<noteq> ''__proto__''"
    and e0: "stored s0 f = []"
    and g1: "generate self t1 r1 s0 (Single f) = Inr o1"
    and s1: "own_list s1 f = persisted_form (gen_calls o1) f"
    and g2: "generate self t2 r2 s1 (Single f) = Inr o2"
    and s2: "own_list s2 f = persisted_form (gen_calls o2) f"
    and g3: "generate self t3 r3 s2 (Single f) = Inr o3"
  shows "\<exists>c2 c3. generateCredentials self (r2 0) = Inr c2
           \<and> generateCredentials self (r3 0) = Inr c3
           \<and> (alive self t3 c2 \<longrightarrow> persisted_form (gen_calls o3) f = Some [c2, c3])"
proof -
  from generate_single[OF g1 fp] e0 m obtain c1 where
    p1: "persisted_form (gen_calls o1) f = Some [c1]"
    by (auto simp: prune_def evict_def)
  with s1 have st1: "stored s1 f = [c1]" by (simp add: stored_def)
  from generate_single[OF g2 fp] st1 m obtain c2 where
    c2: "generateCredentials self (r2 0) = Inr c2"
    and p2: "persisted_form (gen_calls o2) f = Some (prune self t2 [c1] @ [c2])"
    by (auto simp: prune_def evict_def)
  with s2 have st2: "stored s2 f = prune self t2 [c1] @ [c2]" by (simp add: stored_def)
  from generate_single[OF g3 fp] st2 obtain c3 where
    c3: "generateCredentials self (r3 0) = Inr c3"
    and p3: "persisted_form (gen_calls o3) f
               = Some (evict self (prune self t3 (prune self t2 [c1] @ [c2])) @ [c3])"
    by auto
  have "evict self (prune self t3 (prune self t2 [c1] @ [c2])) = [c2]" if "alive self t3 c2"
    using that m by (simp add: prune_def evict_def)
  with c2 c3 p3 show ?thesis by auto
qed




section \<open>Facts about the example values\<close>

lemma draw_ex:
  "generateCredentials self_ex (rnd_ex i) = Inr (cred_ex i)"
  "generateCredentials self_keep (rnd_ex i) = Inr (cred_ex i)"
  "generateCredentials self_two (rnd_ex i) = Inr (cred_ex i)"
  "generateCredentials self_zero (rnd_ex i) = Inr cred_empty"
  "generateCredentials self_neg (rnd_ex i) = Inl RangeError"
  by (simp_all add: generateCredentials_def rnd_ex_def bytes_ex_def cred_ex_def cred_empty_def
        self_ex_def self_keep_def self_two_def self_zero_def self_neg_def defaults_def)

lemma plain_login: "plain_name ''login''" "plain_name ''signup''" "plain_name ''close''"
  by (simp_all add: plain_name_def object_member_def)

lemma own_list_ex:
  "own_list (Some (session_with l)) ''login'' = Some l"
  "own_list (Some (session_new l)) ''login'' = Some l"
  "no_proto_key (Some (session_with l))"
  "no_proto_key (Some (session_new l))"
  "stored (Some (session_with l)) ''login'' = l"
  "stored (Some (session_new l)) ''login'' = l"
  "has_details (Some (session_with l))"
  "has_details (Some (session_new l))"
  "has_details None"
  "stored None f = []"
  by (simp_all add: own_list_def no_proto_key_def stored_def has_details_def session_with_def
        session_new_def)

lemma alive_ex:
  "alive self_ex 90000000 cred_new" "\<not> alive self_ex 90000000 cred_old"
  "alive self_ex 90000001 cred_new"
  "alive self_ex 90000001 (cred_ex i)" "alive self_keep 90000001 (cred_ex i)"
  "alive self_ex 90000000 (cred_ex i)" "alive self_two 90000000 (cred_ex i)"
  by (simp_all add: alive_def cred_ex_def cred_new_def cred_old_def self_ex_def self_keep_def
        self_two_def defaults_def)

lemma exact_ex:
  "exact_numbers self_ex 90000000 [cred_old, cred_new]"
  "exact_numbers self_ex 90000000 [cred_new]"
  "exact_numbers self_ex 90000000 [cred_at t] \<longleftrightarrow> \<bar>t\<bar> \<le> 9007199254740992"
  "exact_numbers self_ex 90000001 [cred_new, cred_ex i]"
  "exact_numbers self_keep 90000001 [cred_new, cred_ex i]"
  "exact_numbers self_two 90000000 []"
  "exact_numbers self_two 90000000 [cred_ex i]"
  "exact_numbers self_two 90000000 [cred_ex i, cred_ex j]"
  by (simp_all add: exact_numbers_def cred_ex_def cred_new_def cred_old_def cred_at_def
        self_ex_def self_keep_def self_two_def defaults_def)

lemma config_ex:
  "maxTokens (config self_ex) = 20" "expiry (config self_ex) = 86400000"
  "luno self_ex = luno_ex" "expireAfterUse (config self_ex)"
  "maxTokens (config self_two) = 2" "expiry (config self_two) = 86400000"
  "luno self_two = luno_ex" "expireAfterUse (config self_two)"
  "maxTokens (config self_zero) = 20" "expiry (config self_zero) = 86400000"
  "luno self_zero = luno_ex" "expireAfterUse (config self_zero)"
  "maxTokens (config self_keep) = 20" "expiry (config self_keep) = 86400000"
  "luno self_keep = luno_ex" "\<not> expireAfterUse (config self_keep)"
  "maxTokens (config self_neg) = 20" "expiry (config self_neg) = 86400000"
  "luno self_neg = luno_ex"
  by (simp_all add: self_ex_def self_two_def self_zero_def self_keep_def self_neg_def
        defaults_def)

lemmas generate_ex_defs = generate_def expire_def splice1_def Let_def session_array_def
  csrf_get_def object_get_def object_member_def set_form_def save_def draw_ex config_ex
  session_with_def session_new_def cred_old_def cred_new_def luno_ex_def json_own_def

lemmas validate_ex_defs = validate_def session_form_def csrf_get_def details_get_def
  object_get_def object_member_def expire_def splice1_def Let_def validate_loop.simps
  field_name_def body_of_def scmp_ex_def set_form_def save_def config_ex session_with_def
  session_new_def cred_old_def cred_new_def cred_ex_def cred_empty_def luno_ex_def
  json_own_def

section \<open>Round trip of a credential\<close>

text \<open>
  Claim C1 as stated fails. With \<open>tokenLength\<close> and \<open>nameLength\<close> 0 every credential that
  \<open>generate\<close> produces has the empty name and the empty token, and its field name is
  \<open>config.name\<close>. After two calls of \<open>generate\<close> for the form \<open>login\<close> the session stores
  two such credentials; the submission of the empty token under \<open>csrf-\<close> is matched, and
  the identical submission repeated at once is matched again, although \<open>expireAfterUse\<close>
  is true.
\<close>

theorem generate_validate_repeat_counterexample:
  "generate self_zero 90000000 rnd_ex None (Single ''login'')
     = Inr \<lparr> gen_calls = [Post ''/sessions'' \<lparr> csrf = Some [(''login'', [cred_empty])] \<rparr>],
             gen_cb = GenOk [(''login'', cred_empty)] (session_new [cred_empty]) True,
             gen_session = None \<rparr>
   \<and> generate self_zero 90000000 (\<lambda>i. rnd_ex (Suc i)) (Some (session_new [cred_empty]))
       (Single ''login'')
     = Inr \<lparr> gen_calls = [Patch ''/sessions/sess_new''
                            \<lparr> csrf = Some [(''login'', [cred_empty, cred_empty])] \<rparr>],
             gen_cb = GenOk [(''login'', cred_empty)] (session_new [cred_empty, cred_empty]) False,
             gen_session = Some (session_new [cred_empty, cred_empty]) \<rparr>
   \<and> expireAfterUse (config self_zero)
   \<and> field_name self_zero cred_empty = ''csrf-''
   \<and> validate self_zero scmp_ex array_member_ex 90000001 ''login''
       (Some (session_new [cred_empty, cred_empty])) (Some (body_of [(''csrf-'', Str '''')]))
     = Inr \<lparr> ret = True, val_cb = ValOk True (Some (session_new [cred_empty])),
             val_calls = [Patch ''/sessions/sess_new''
                            \<lparr> csrf = Some [(''login'', [cred_empty])] \<rparr>],
             val_session = Some (session_new [cred_empty]) \<rparr>
   \<and> validate self_zero scmp_ex array_member_ex 90000001 ''login''
       (Some (session_new [cred_empty])) (Some (body_of [(''csrf-'', Str '''')]))
     = Inr \<lparr> ret = True, val_cb = ValOk True (Some (session_new [])),
             val_calls = [Patch ''/sessions/sess_new'' \<lparr> csrf = Some [(''login'', [])] \<rparr>],
             val_session = Some (session_new []) \<rparr>"
proof -
  have g: "generate self_zero 90000000 rnd_ex None (Single ''login'')
     = Inr \<lparr> gen_calls = [Post ''/sessions'' \<lparr> csrf = Some [(''login'', [cred_empty])] \<rparr>],
             gen_cb = GenOk [(''login'', cred_empty)] (session_new [cred_empty]) True,
             gen_session = None \<rparr>"
    "generate self_zero 90000000 (\<lambda>i. rnd_ex (Suc i)) (Some (session_new [cred_empty]))
       (Single ''login'')
     = Inr \<lparr> gen_calls = [Patch ''/sessions/sess_new''
                            \<lparr> csrf = Some [(''login'', [cred_empty, cred_empty])] \<rparr>],
             gen_cb = GenOk [(''login'', cred_empty)] (session_new [cred_empty, cred_empty]) False,
             gen_session = Some (session_new [cred_empty, cred_empty]) \<rparr>"
    by (simp_all add: generate_ex_defs cred_empty_def)
  have f: "field_name self_zero cred_empty = ''csrf-''"
    by (simp add: field_name_def cred_empty_def self_zero_def defaults_def)
  have v: "validate self_zero scmp_ex array_member_ex 90000001 ''login''
       (Some (session_new [cred_empty, cred_empty])) (Some (body_of [(''csrf-'', Str '''')]))
     = Inr \<lparr> ret = True, val_cb = ValOk True (Some (session_new [cred_empty])),
             val_calls = [Patch ''/sessions/sess_new''
                            \<lparr> csrf = Some [(''login'', [cred_empty])] \<rparr>],
             val_session = Some (session_new [cred_empty]) \<rparr>"
    "validate self_zero scmp_ex array_member_ex 90000001 ''login''
       (Some (session_new [cred_empty])) (Some (body_of [(''csrf-'', Str '''')]))
     = Inr \<lparr> ret = True, val_cb = ValOk True (Some (session_new [])),
             val_calls = [Patch ''/sessions/sess_new'' \<lparr> csrf = Some [(''login'', [])] \<rparr>],
             val_session = Some (session_new []) \<rparr>"
    by (simp_all add: validate_ex_defs self_zero_def defaults_def)
  from g f v show ?thesis by (simp add: config_ex)
qed

text \<open>
  Claim C1, as amended. Let \<open>c\<close> be the credential that \<open>generate\<close> hands to its callback
  for the form \<open>f\<close>, a name under which a plain object inherits nothing. Let the session
  presented to \<open>validate\<close> store for \<open>f\<close> the list that \<open>generate\<close> sent to the session
  store, let its CSRF data have no own property \<open>__proto__\<close>, and let the numbers that
  decide expiry be exact. When \<open>c\<close> is not expired, its token is submitted under its field
  name (the name \<open>inputHTML\<close> renders) and the comparison accepts the token compared with
  itself, the first submission is matched. Submitted again to the session as the first
  call left it, it is matched when \<open>expireAfterUse\<close> is false. It is not matched when
  \<open>expireAfterUse\<close> is true and the comparison accepts the submission for none of the
  older credentials the session stores for \<open>f\<close>; in that case it is not matched either by
  a session that stores for \<open>f\<close> the list the first call sent to the session store.
\<close>

theorem generate_validate_round_trip:
  assumes "generate self t0 rnd sess0 forms = Inr gout"
    and "gen_cb gout = GenOk resp sess_cb fresh"
    and "map_of resp f = Some c"
    and "plain_name f"
    and "own_list (Some s) f = persisted_form (gen_calls gout) f"
    and "no_proto_key (Some s)"
    and "exact_numbers self now (stored (Some s) f)"
    and "alive self now c"
    and "b (field_name self c) = Str (token c)"
    and "scmp (Str (token c)) (token c)"
  shows "\<exists>out. validate self scmp array_member now f (Some s) (Some b) = Inr out \<and> ret out
           \<and> (\<not> expireAfterUse (config self) \<longrightarrow>
                (\<exists>out2. validate self scmp array_member now f (val_session out) (Some b)
                           = Inr out2 \<and> ret out2))
           \<and> (expireAfterUse (config self)
                \<and> (\<forall>c' \<in> set (butlast (stored (Some s) f)). \<not> matches self scmp b c') \<longrightarrow>
                (\<exists>out2. validate self scmp array_member now f (val_session out) (Some b)
                           = Inr out2 \<and> \<not> ret out2)
                \<and> (\<forall>s2. own_list (Some s2) f = persisted_form (val_calls out) f
                          \<and> no_proto_key (Some s2) \<longrightarrow>
                     (\<exists>out2. validate self scmp array_member now f (Some s2) (Some b) = Inr out2
                        \<and> \<not> ret out2)))"
proof -
  have fp: "f \<noteq> ''__proto__''" using assms(4) by (simp add: plain_name_def)
  from generate_resp_last[OF assms(1,2,3) fp] assms(5) obtain pre where
    sf: "own_list (Some s) f = Some (pre @ [c])" by auto
  have mc: "matches self scmp b c" using assms(9,10) by (simp add: matches_def)
  have bl: "butlast (stored (Some s) f) = pre" using sf by (simp add: stored_def)
  from validate_round_trip[OF sf assms(4) assms(6) assms(8) mc, of array_member] bl
  show ?thesis by simp
qed

theorem generate_validate_round_trip_witness:
  "(\<exists>out. validate self_ex scmp_ex array_member_ex 90000001 ''login''
             (Some (session_with [cred_new, cred_ex 0]))
             (Some (body_of [(''csrf-n'', Str ''t'')])) = Inr out
          \<and> ret out
          \<and> (\<exists>out2. validate self_ex scmp_ex array_member_ex 90000001 ''login''
                       (val_session out) (Some (body_of [(''csrf-n'', Str ''t'')])) = Inr out2
                 \<and> \<not> ret out2))
   \<and> (\<exists>out. validate self_keep scmp_ex array_member_ex 90000001 ''login''
             (Some (session_with [cred_new, cred_ex 0]))
             (Some (body_of [(''csrf-n'', Str ''t'')])) = Inr out
          \<and> ret out
          \<and> (\<exists>out2. validate self_keep scmp_ex array_member_ex 90000001 ''login''
                       (val_session out) (Some (body_of [(''csrf-n'', Str ''t'')])) = Inr out2
                 \<and> ret out2))"
proof -
  let ?gout = "\<lparr> gen_calls =
               [Patch ''/sessions/sess_1'' \<lparr> csrf = Some [(''login'', [cred_new, cred_ex 0])] \<rparr>],
             gen_cb = GenOk [(''login'', cred_ex 0)] (session_with [cred_new, cred_ex 0]) False,
             gen_session = Some (session_with [cred_new, cred_ex 0]) \<rparr>"
  let ?s = "session_with [cred_new, cred_ex 0]"
  let ?b = "body_of [(''csrf-n'', Str ''t'')]"
  have g1: "generate self_ex 90000000 rnd_ex (Some (session_with [cred_old, cred_new]))
              (Single ''login'') = Inr ?gout"
    and g2: "generate self_keep 90000000 rnd_ex (Some (session_with [cred_old, cred_new]))
              (Single ''login'') = Inr ?gout"
    by (simp_all add: generate_ex_defs)
  have cb: "gen_cb ?gout = GenOk [(''login'', cred_ex 0)] ?s False" by simp
  have r: "map_of [(''login'', cred_ex 0)] ''login'' = Some (cred_ex 0)" by simp
  have p: "own_list (Some ?s) ''login'' = persisted_form (gen_calls ?gout) ''login''"
    by (simp add: own_list_ex persisted_form_def call_body_def json_own_def)
  have x1: "exact_numbers self_ex 90000001 (stored (Some ?s) ''login'')"
    and x2: "exact_numbers self_keep 90000001 (stored (Some ?s) ''login'')"
    by (simp_all add: own_list_ex exact_ex)
  have b1: "?b (field_name self_ex (cred_ex 0)) = Str (token (cred_ex 0))"
    and b2: "?b (field_name self_keep (cred_ex 0)) = Str (token (cred_ex 0))"
    by (simp_all add: body_of_def field_name_def cred_ex_def self_ex_def self_keep_def
          defaults_def)
  have sc: "scmp_ex (Str (token (cred_ex 0))) (token (cred_ex 0))" by (simp add: scmp_ex_def)
  have fr: "\<forall>c' \<in> set (butlast (stored (Some ?s) ''login'')).
              \<not> matches self_ex scmp_ex ?b c'"
    by (simp add: own_list_ex matches_def scmp_ex_def body_of_def field_name_def cred_new_def
          self_ex_def defaults_def)
  from generate_validate_round_trip[where b = ?b and c = "cred_ex 0" and scmp = scmp_ex
         and array_member = array_member_ex,
         OF g1 cb r plain_login(1) p own_list_ex(3) x1 alive_ex(4) b1 sc] config_ex(4) fr
  have A: "\<exists>out. validate self_ex scmp_ex array_member_ex 90000001 ''login'' (Some ?s)
                    (Some ?b) = Inr out
          \<and> ret out
          \<and> (\<exists>out2. validate self_ex scmp_ex array_member_ex 90000001 ''login''
                       (val_session out) (Some ?b) = Inr out2 \<and> \<not> ret out2)"
    by blast
  from generate_validate_round_trip[where b = ?b and c = "cred_ex 0" and scmp = scmp_ex
         and array_member = array_member_ex,
         OF g2 cb r plain_login(1) p own_list_ex(3) x2 alive_ex(5) b2 sc] config_ex(16)
  have B: "\<exists>out. validate self_keep scmp_ex array_member_ex 90000001 ''login'' (Some ?s)
                    (Some ?b) = Inr out
          \<and> ret out
          \<and> (\<exists>out2. validate self_keep scmp_ex array_member_ex 90000001 ''login''
                       (val_session out) (Some ?b) = Inr out2 \<and> ret out2)"
    by blast
  from A B show ?thesis by blast
qed

section \<open>Bounded credential lists\<close>

text \<open>
  Claim C2 as stated fails: \<open>generate\<close> prunes before it appends, so a stored list of
  one expired credential becomes a list of length 1, not \<open>min (1 + 1) maxTokens = 2\<close>.
\<close>

theorem generate_length_counterexample:
  "generate self_ex 90000000 rnd_ex (Some (session_with [cred_old])) (Single ''login'')
     = Inr \<lparr> gen_calls =
               [Patch ''/sessions/sess_1'' \<lparr> csrf = Some [(''login'', [cred_ex 0])] \<rparr>],
             gen_cb = GenOk [(''login'', cred_ex 0)] (session_with [cred_ex 0]) False,
             gen_session = Some (session_with [cred_ex 0]) \<rparr>
   \<and> int (length [cred_ex 0]) \<noteq> min (int (length [cred_old]) + 1) (maxTokens (config self_ex))"
  by (simp add: generate_ex_defs)

text \<open>
  Claim C2, as amended. Let a call of \<open>generate\<close> return in which the form \<open>f\<close>, not
  \<open>__proto__\<close>, is requested exactly once (other forms may be requested several times),
  let \<open>prev\<close> be the unexpired credentials the session stores for \<open>f\<close>, the numbers that
  decide expiry being exact, and let \<open>maxTokens\<close> be positive and \<open>prev\<close> have at most
  \<open>maxTokens\<close> entries. The list sent to the session store for \<open>f\<close> is \<open>prev\<close>, without
  its oldest entry when \<open>prev\<close> has \<open>maxTokens\<close> entries, followed by the credential drawn
  for \<open>f\<close>; its length is \<open>min (length prev + 1) maxTokens\<close>. The call returns when the
  session is absent or has a \<open>details\<close> object, every requested form is a name under which
  a plain object inherits nothing, and \<open>crypto.randomBytes\<close> accepts the configured
  lengths. In particular, with \<open>maxTokens = 2\<close>, three calls for one form, each on a
  session storing what the call before sent, starting from nothing stored, send at last
  exactly the second and third credentials, in that order, provided the second has not
  expired by the third call.
\<close>

theorem generate_list_bounded:
  "(generate self now rnd sess forms = Inr out
      \<and> forms_list forms = pre @ f # rest \<and> f \<notin> set pre \<and> f \<notin> set rest
      \<and> f \<noteq> ''__proto__''
      \<and> exact_numbers self now (stored sess f)
      \<and> 0 < maxTokens (config self)
      \<and> int (length (prune self now (stored sess f))) \<le> maxTokens (config self) \<longrightarrow>
      (\<exists>c. generateCredentials self (rnd (length pre)) = Inr c
         \<and> persisted_form (gen_calls out) f
             = Some ((if int (length (prune self now (stored sess f))) = maxTokens (config self)
                      then tl (prune self now (stored sess f))
                      else prune self now (stored sess f))
                     @ [c])
         \<and> int (length ((if int (length (prune self now (stored sess f))) = maxTokens (config self)
                          then tl (prune self now (stored sess f))
                          else prune self now (stored sess f))
                         @ [c]))
             = min (int (length (prune self now (stored sess f))) + 1) (maxTokens (config self))))
   \<and> (has_details sess \<and> (\<forall>g \<in> set (forms_list forms). plain_name g)
        \<and> draws_ok self rnd (length (forms_list forms)) \<longrightarrow>
        (\<exists>out'. generate self now rnd sess forms = Inr out'))
   \<and> (maxTokens (config self) = 2 \<and> g \<noteq> ''__proto__'' \<and> stored s0 g = []
        \<and> generate self t1 r1 s0 (Single g) = Inr o1
        \<and> own_list s1 g = persisted_form (gen_calls o1) g
        \<and> exact_numbers self t2 (stored s1 g)
        \<and> generate self t2 r2 s1 (Single g) = Inr o2
        \<and> own_list s2 g = persisted_form (gen_calls o2) g
        \<and> exact_numbers self t3 (stored s2 g)
        \<and> generate self t3 r3 s2 (Single g) = Inr o3 \<longrightarrow>
      (\<exists>c2 c3. generateCredentials self (r2 0) = Inr c2
         \<and> generateCredentials self (r3 0) = Inr c3
         \<and> (alive self t3 c2 \<longrightarrow> persisted_form (gen_calls o3) g = Some [c2, c3])))"
proof (intro conjI impI)
  let ?prev = "prune self now (stored sess f)"
  assume a: "generate self now rnd sess forms = Inr out
      \<and> forms_list forms = pre @ f # rest \<and> f \<notin> set pre \<and> f \<notin> set rest
      \<and> f \<noteq> ''__proto__''
      \<and> exact_numbers self now (stored sess f)
      \<and> 0 < maxTokens (config self)
      \<and> int (length ?prev) \<le> maxTokens (config self)"
  then have g: "generate self now rnd sess forms = Inr out"
    and fs: "forms_list forms = pre @ f # rest" "f \<notin> set pre" "f \<notin> set rest"
    and fp: "f \<noteq> ''__proto__''"
    and m: "0 < maxTokens (config self)" "int (length ?prev) \<le> maxTokens (config self)"
    by simp_all
  have ev: "evict self ?prev = (if int (length ?prev) = maxTokens (config self) then tl ?prev else ?prev)"
    using m by (simp add: evict_def)
  from generate_persisted[OF g fs fp] obtain c where
    c: "generateCredentials self (rnd (length pre)) = Inr c"
    and p: "persisted_form (gen_calls out) f = Some (evict self ?prev @ [c])"
    by blast
  from c p evict_length[OF m, of c]
  show "\<exists>c. generateCredentials self (rnd (length pre)) = Inr c
         \<and> persisted_form (gen_calls out) f
             = Some ((if int (length ?prev) = maxTokens (config self) then tl ?prev else ?prev)
                     @ [c])
         \<and> int (length ((if int (length ?prev) = maxTokens (config self) then tl ?prev else ?prev)
                         @ [c]))
             = min (int (length ?prev) + 1) (maxTokens (config self))"
    unfolding ev by blast
next
  assume "has_details sess \<and> (\<forall>g \<in> set (forms_list forms). plain_name g)
        \<and> draws_ok self rnd (length (forms_list forms))"
  then show "\<exists>out'. generate self now rnd sess forms = Inr out'"
    using generate_total[of sess forms self rnd now] by blast
next
  assume "maxTokens (config self) = 2 \<and> g \<noteq> ''__proto__'' \<and> stored s0 g = []
        \<and> generate self t1 r1 s0 (Single g) = Inr o1
        \<and> own_list s1 g = persisted_form (gen_calls o1) g
        \<and> exact_numbers self t2 (stored s1 g)
        \<and> generate self t2 r2 s1 (Single g) = Inr o2
        \<and> own_list s2 g = persisted_form (gen_calls o2) g
        \<and> exact_numbers self t3 (stored s2 g)
        \<and> generate self t3 r3 s2 (Single g) = Inr o3"
  then show "\<exists>c2 c3. generateCredentials self (r2 0) = Inr c2
         \<and> generateCredentials self (r3 0) = Inr c3
         \<and> (alive self t3 c2 \<longrightarrow> persisted_form (gen_calls o3) g = Some [c2, c3])"
    using three_generations[of self g s0 t1 r1 o1 s1 t2 r2 o2 s2 t3 r3 o3] by blast
qed

theorem generate_list_bounded_witness:
  "(\<exists>out. generate self_ex 90000000 rnd_ex (Some (session_with [cred_old, cred_new]))
             (Array [''signup'', ''login'', ''signup'']) = Inr out
        \<and> persisted_form (gen_calls out) ''login'' = Some [cred_new, cred_ex 1])
   \<and> (\<exists>o1 o2 o3.
        generate self_two 90000000 rnd_ex None (Single ''login'') = Inr o1
        \<and> persisted_form (gen_calls o1) ''login'' = Some [cred_ex 0]
        \<and> generate self_two 90000000 (\<lambda>i. rnd_ex (Suc i)) (Some (session_new [cred_ex 0]))
             (Single ''login'') = Inr o2
        \<and> persisted_form (gen_calls o2) ''login'' = Some [cred_ex 0, cred_ex 1]
        \<and> generate self_two 90000000 (\<lambda>i. rnd_ex (Suc (Suc i)))
             (Some (session_new [cred_ex 0, cred_ex 1])) (Single ''login'') = Inr o3
        \<and> persisted_form (gen_calls o3) ''login'' = Some [cred_ex 1, cred_ex 2])"
proof -
  have pr: "prune self_ex 90000000 [cred_old, cred_new] = [cred_new]"
    "prune self_two 90000000 [] = []"
    "prune self_two 90000000 [cred_ex 0] = [cred_ex 0]"
    "prune self_two 90000000 [cred_ex 0, cred_ex 1] = [cred_ex 0, cred_ex 1]"
    by (simp_all add: prune_def alive_ex)
  have pA: "has_details (Some (session_with [cred_old, cred_new]))
      \<and> (\<forall>g \<in> set (forms_list (Array [''signup'', ''login'', ''signup''])). plain_name g)
      \<and> draws_ok self_ex rnd_ex (length (forms_list (Array [''signup'', ''login'', ''signup''])))"
    by (simp add: own_list_ex forms_list_def plain_login draws_ok_def draw_ex)
  from generate_list_bounded[of self_ex 90000000 rnd_ex
         "Some (session_with [cred_old, cred_new])" "Array [''signup'', ''login'', ''signup'']",
         THEN conjunct2, THEN conjunct1, rule_format, OF pA]
  obtain out where out: "generate self_ex 90000000 rnd_ex
      (Some (session_with [cred_old, cred_new])) (Array [''signup'', ''login'', ''signup''])
        = Inr out"
    by blast
  have hA: "generate self_ex 90000000 rnd_ex (Some (session_with [cred_old, cred_new]))
        (Array [''signup'', ''login'', ''signup'']) = Inr out
      \<and> forms_list (Array [''signup'', ''login'', ''signup'']) = [''signup''] @ ''login'' # [''signup'']
      \<and> ''login'' \<notin> set [''signup''] \<and> ''login'' \<notin> set [''signup'']
      \<and> ''login'' \<noteq> ''__proto__''
      \<and> exact_numbers self_ex 90000000 (stored (Some (session_with [cred_old, cred_new])) ''login'')
      \<and> 0 < maxTokens (config self_ex)
      \<and> int (length (prune self_ex 90000000
                (stored (Some (session_with [cred_old, cred_new])) ''login'')))
          \<le> maxTokens (config self_ex)"
    using out by (simp add: forms_list_def own_list_ex exact_ex config_ex pr)
  from generate_list_bounded[of self_ex 90000000 rnd_ex
         "Some (session_with [cred_old, cred_new])" "Array [''signup'', ''login'', ''signup'']"
         out "[''signup'']" "''login''" "[''signup'']",
         THEN conjunct1, rule_format, OF hA]
  have A: "persisted_form (gen_calls out) ''login'' = Some [cred_new, cred_ex 1]"
    by (simp add: own_list_ex pr config_ex draw_ex)
  have p1: "has_details None \<and> (\<forall>g \<in> set (forms_list (Single ''login'')). plain_name g)
      \<and> draws_ok self_two rnd_ex (length (forms_list (Single ''login'')))"
    by (simp add: own_list_ex forms_list_def plain_login draws_ok_def draw_ex)
  from generate_list_bounded[of self_two 90000000 rnd_ex None "Single ''login''",
         THEN conjunct2, THEN conjunct1, rule_format, OF p1]
  obtain o1 where o1: "generate self_two 90000000 rnd_ex None (Single ''login'') = Inr o1"
    by blast
  have h1: "generate self_two 90000000 rnd_ex None (Single ''login'') = Inr o1
      \<and> forms_list (Single ''login'') = [] @ ''login'' # []
      \<and> ''login'' \<notin> set [] \<and> ''login'' \<notin> set []
      \<and> ''login'' \<noteq> ''__proto__''
      \<and> exact_numbers self_two 90000000 (stored None ''login'')
      \<and> 0 < maxTokens (config self_two)
      \<and> int (length (prune self_two 90000000 (stored None ''login'')))
          \<le> maxTokens (config self_two)"
    using o1 by (simp add: forms_list_def own_list_ex exact_ex config_ex pr)
  from generate_list_bounded[of self_two 90000000 rnd_ex None "Single ''login''"
         o1 "[]" "''login''" "[]", THEN conjunct1, rule_format, OF h1]
  have q1: "persisted_form (gen_calls o1) ''login'' = Some [cred_ex 0]"
    by (simp add: own_list_ex pr config_ex draw_ex)
  have p2: "has_details (Some (session_new [cred_ex 0]))
      \<and> (\<forall>g \<in> set (forms_list (Single ''login'')). plain_name g)
      \<and> draws_ok self_two (\<lambda>i. rnd_ex (Suc i)) (length (forms_list (Single ''login'')))"
    by (simp add: own_list_ex forms_list_def plain_login draws_ok_def draw_ex)
  from generate_list_bounded[of self_two 90000000 "\<lambda>i. rnd_ex (Suc i)"
         "Some (session_new [cred_ex 0])" "Single ''login''",
         THEN conjunct2, THEN conjunct1, rule_format, OF p2]
  obtain o2 where o2: "generate self_two 90000000 (\<lambda>i. rnd_ex (Suc i))
      (Some (session_new [cred_ex 0])) (Single ''login'') = Inr o2"
    by blast
  have h2: "generate self_two 90000000 (\<lambda>i. rnd_ex (Suc i)) (Some (session_new [cred_ex 0]))
        (Single ''login'') = Inr o2
      \<and> forms_list (Single ''login'') = [] @ ''login'' # []
      \<and> ''login'' \<notin> set [] \<and> ''login'' \<notin> set []
      \<and> ''login'' \<noteq> ''__proto__''
      \<and> exact_numbers self_two 90000000 (stored (Some (session_new [cred_ex 0])) ''login'')
      \<and> 0 < maxTokens (config self_two)
      \<and> int (length (prune self_two 90000000 (stored (Some (session_new [cred_ex 0])) ''login'')))
          \<le> maxTokens (config self_two)"
    using o2 by (simp add: forms_list_def own_list_ex exact_ex config_ex pr)
  from generate_list_bounded[of self_two 90000000 "\<lambda>i. rnd_ex (Suc i)"
         "Some (session_new [cred_ex 0])" "Single ''login''"
         o2 "[]" "''login''" "[]", THEN conjunct1, rule_format, OF h2]
  have q2: "persisted_form (gen_calls o2) ''login'' = Some [cred_ex 0, cred_ex 1]"
    by (simp add: own_list_ex pr config_ex draw_ex)
  have p3: "has_details (Some (session_new [cred_ex 0, cred_ex 1]))
      \<and> (\<forall>g \<in> set (forms_list (Single ''login'')). plain_name g)
      \<and> draws_ok self_two (\<lambda>i. rnd_ex (Suc (Suc i))) (length (forms_list (Single ''login'')))"
    by (simp add: own_list_ex forms_list_def plain_login draws_ok_def draw_ex)
  from generate_list_bounded[of self_two 90000000 "\<lambda>i. rnd_ex (Suc (Suc i))"
         "Some (session_new [cred_ex 0, cred_ex 1])" "Single ''login''",
         THEN conjunct2, THEN conjunct1, rule_format, OF p3]
  obtain o3 where o3: "generate self_two 90000000 (\<lambda>i. rnd_ex (Suc (Suc i)))
      (Some (session_new [cred_ex 0, cred_ex 1])) (Single ''login'') = Inr o3"
    by blast
  have h3: "maxTokens (config self_two) = 2 \<and> ''login'' \<noteq> ''__proto__''
        \<and> stored None ''login'' = []
        \<and> generate self_two 90000000 rnd_ex None (Single ''login'') = Inr o1
        \<and> own_list (Some (session_new [cred_ex 0])) ''login''
            = persisted_form (gen_calls o1) ''login''
        \<and> exact_numbers self_two 90000000 (stored (Some (session_new [cred_ex 0])) ''login'')
        \<and> generate self_two 90000000 (\<lambda>i. rnd_ex (Suc i)) (Some (session_new [cred_ex 0]))
            (Single ''login'') = Inr o2
        \<and> own_list (Some (session_new [cred_ex 0, cred_ex 1])) ''login''
            = persisted_form (gen_calls o2) ''login''
        \<and> exact_numbers self_two 90000000
            (stored (Some (session_new [cred_ex 0, cred_ex 1])) ''login'')
        \<and> generate self_two 90000000 (\<lambda>i. rnd_ex (Suc (Suc i)))
            (Some (session_new [cred_ex 0, cred_ex 1])) (Single ''login'') = Inr o3"
    using o1 o2 o3 q1 q2 by (simp add: config_ex own_list_ex exact_ex)
  from generate_list_bounded[of self_two _ _ _ _ _ _ _ _ "''login''" None 90000000 rnd_ex o1
         "Some (session_new [cred_ex 0])" 90000000 "\<lambda>i. rnd_ex (Suc i)" o2
         "Some (session_new [cred_ex 0, cred_ex 1])" 90000000 "\<lambda>i. rnd_ex (Suc (Suc i))" o3,
         THEN conjunct2, THEN conjunct2, rule_format, OF h3]
  have q3: "persisted_form (gen_calls o3) ''login'' = Some [cred_ex 1, cred_ex 2]"
    by (auto simp add: draw_ex alive_ex numeral_2_eq_2)
  from out A o1 o2 o3 q1 q2 q3 show ?thesis by blast
qed

section \<open>No request to the store without a match\<close>

text \<open>
  Claim C3. A call of \<open>validate\<close> that returns not-matched makes no request to the
  session store. When the session is absent, or stores nothing for a form whose name is
  one under which a plain object inherits nothing, the call returns not-matched at once;
  and whenever a call returns \<open>false\<close>, also after pruning has changed the lists in
  memory, its list of requests is empty.
\<close>

theorem validate_not_matched_no_save:
  "((sess = None \<or> (plain_name form \<and> own_list sess form = None)) \<longrightarrow>
      validate self scmp array_member now form sess bdy =
        Inr \<lparr> ret = False, val_cb = ValOk False None, val_calls = [], val_session = sess \<rparr>)
   \<and> (validate self scmp array_member now form sess bdy = Inr out \<and> \<not> ret out \<longrightarrow>
        val_calls out = [])"
proof -
  have "session_form sess form = Absent"
    if "sess = None \<or> (plain_name form \<and> own_list sess form = None)"
    using that by (auto simp: session_form_plain) (simp add: session_form_def)
  then have a: "(sess = None \<or> (plain_name form \<and> own_list sess form = None)) \<longrightarrow>
      validate self scmp array_member now form sess bdy =
        Inr \<lparr> ret = False, val_cb = ValOk False None, val_calls = [], val_session = sess \<rparr>"
    using validate_absent[of sess form self scmp array_member now bdy] by blast
  have b: "validate self scmp array_member now form sess bdy = Inr out \<and> \<not> ret out \<longrightarrow>
        val_calls out = []"
    using validate_not_matched_calls[of self scmp array_member now form sess bdy out] by blast
  from a b show ?thesis by blast
qed

theorem validate_not_matched_no_save_witness:
  "validate self_ex scmp_ex array_member_ex 90000000 ''login''
      (Some (session_with [cred_old, cred_new])) (Some (body_of [(''csrf-n2'', Str ''wrong'')]))
     = Inr \<lparr> ret = False, val_cb = ValOk False None, val_calls = [],
             val_session = Some (session_with [cred_new]) \<rparr>
   \<and> validate self_ex scmp_ex array_member_ex 90000000 ''login'' None
       (Some (body_of [(''csrf-n2'', Str ''t2'')]))
     = Inr \<lparr> ret = False, val_cb = ValOk False None, val_calls = [], val_session = None \<rparr>
   \<and> validate self_ex scmp_ex array_member_ex 90000000 ''signup''
       (Some (session_with [cred_new])) (Some (body_of [(''csrf-n2'', Str ''t2'')]))
     = Inr \<lparr> ret = False, val_cb = ValOk False None, val_calls = [],
             val_session = Some (session_with [cred_new]) \<rparr>"
proof -
  let ?out = "\<lparr> ret = False, val_cb = ValOk False None, val_calls = [],
             val_session = Some (session_with [cred_new]) \<rparr>"
  have h: "validate self_ex scmp_ex array_member_ex 90000000 ''login''
      (Some (session_with [cred_old, cred_new])) (Some (body_of [(''csrf-n2'', Str ''wrong'')]))
     = Inr ?out"
    by (simp add: validate_def session_form_def csrf_get_def details_get_def expire_def ex_defs
          splice1_def Let_def validate_loop.simps field_name_def body_of_def)
  have n: "own_list (Some (session_with [cred_new])) ''signup'' = None"
    by (simp add: own_list_def session_with_def)
  from validate_not_matched_no_save[of None "''login''" self_ex scmp_ex array_member_ex 90000000
         "Some (body_of [(''csrf-n2'', Str ''t2'')])", THEN conjunct1]
  have a: "validate self_ex scmp_ex array_member_ex 90000000 ''login'' None
       (Some (body_of [(''csrf-n2'', Str ''t2'')]))
     = Inr \<lparr> ret = False, val_cb = ValOk False None, val_calls = [], val_session = None \<rparr>"
    by simp
  from validate_not_matched_no_save[of "Some (session_with [cred_new])" "''signup''" self_ex
         scmp_ex array_member_ex 90000000 "Some (body_of [(''csrf-n2'', Str ''t2'')])",
         THEN conjunct1] n plain_login(2)
  have b: "validate self_ex scmp_ex array_member_ex 90000000 ''signup''
       (Some (session_with [cred_new])) (Some (body_of [(''csrf-n2'', Str ''t2'')]))
     = Inr ?out"
    by simp
  from validate_not_matched_no_save[of "Some (session_with [cred_old, cred_new])" "''login''"
         self_ex scmp_ex array_member_ex 90000000
         "Some (body_of [(''csrf-n2'', Str ''wrong'')])" ?out, THEN conjunct2] h
  have "val_calls ?out = []" by simp
  with h a b show ?thesis by simp
qed

section \<open>Idempotent pruning\<close>

text \<open>
  Claim C4. Pruning is idempotent: when \<open>_expire\<close> has run on a session at time \<open>now\<close>,
  running it again on the resulting session at the same time leaves every credential
  list as it is and records no changed form in \<open>details\<close>.
\<close>

theorem expire_idempotent:
  "expire self now sess [] = Inr (sess1, changed) \<Longrightarrow> expire self now sess1 [] = Inr (sess1, [])"
  by (rule expire_idem)

theorem expire_idempotent_witness:
  "expire self_ex 90000000 (Some (session_with [cred_old, cred_new])) []
     = Inr (Some (session_with [cred_new]), [(''login'', [cred_new])])
   \<and> expire self_ex 90000000 (Some (session_with [cred_new])) []
     = Inr (Some (session_with [cred_new]), [])"
proof -
  have h: "expire self_ex 90000000 (Some (session_with [cred_old, cred_new])) []
     = Inr (Some (session_with [cred_new]), [(''login'', [cred_new])])"
    by (simp add: expire_def ex_defs splice1_def Let_def)
  from expire_idempotent[OF h] h show ?thesis by simp
qed

section \<open>The expiry boundary\<close>




section \<open>One request per call of \<open>generate\<close>\<close>

text \<open>
  Claim C6 as stated fails: an invocation of \<open>generate\<close> that throws makes no request to
  the session store. It throws a TypeError for a session without \<open>details\<close> and for the
  form name \<open>constructor\<close>, which the CSRF data inherits from \<open>Object.prototype\<close>, and
  with \<open>nameLength = -1\<close> it throws what \<open>crypto.randomBytes\<close> throws.
\<close>

theorem generate_throws_counterexample:
  "generate self_ex 90000000 rnd_ex
     (Some \<lparr> id_session = Some ''sess_1'', key = ''k'', details = None \<rparr>)
     (Array [''login'', ''signup'']) = Inl TypeError
   \<and> generate self_ex 90000000 rnd_ex (Some (session_with [cred_new]))
       (Array [''login'', ''constructor'']) = Inl TypeError
   \<and> generate self_neg 90000000 rnd_ex None (Single ''login'') = Inl RangeError"
  by (simp add: generate_ex_defs)

text \<open>
  Claim C6, as amended. Every invocation of \<open>generate\<close> that returns has made exactly one
  request to the session store, whatever the number of forms asked for. An invocation
  that throws does so in \<open>_expire\<close> or in the loop over the forms, before \<open>save\<close> is
  called. \<open>generate\<close> returns when the session is absent or has a \<open>details\<close> object,
  every requested form is a name under which a plain object inherits nothing, and
  \<open>crypto.randomBytes\<close> accepts the configured lengths.
\<close>

theorem generate_one_save:
  "(generate self now rnd sess forms = Inr out \<longrightarrow> length (gen_calls out) = 1)
   \<and> (generate self now rnd sess forms = Inl e \<longrightarrow>
        expire self now sess [] = Inl e
        \<or> (\<exists>sess1 dts1. expire self now sess [] = Inr (sess1, dts1)
             \<and> generate_loop self rnd 0 (forms_list forms) sess1 dts1 [] = Inl e))
   \<and> (has_details sess \<and> (\<forall>g \<in> set (forms_list forms). plain_name g)
        \<and> draws_ok self rnd (length (forms_list forms)) \<longrightarrow>
        (\<exists>out'. generate self now rnd sess forms = Inr out'))"
proof -
  have "generate self now rnd sess forms = Inr out \<Longrightarrow> length (gen_calls out) = 1"
    using generate_calls[of self now rnd sess forms out] by auto
  moreover have "generate self now rnd sess forms = Inl e \<Longrightarrow>
        expire self now sess [] = Inl e
        \<or> (\<exists>sess1 dts1. expire self now sess [] = Inr (sess1, dts1)
             \<and> generate_loop self rnd 0 (forms_list forms) sess1 dts1 [] = Inl e)"
    by (rule generate_thrown)
  moreover have "has_details sess \<Longrightarrow> \<forall>g \<in> set (forms_list forms). plain_name g \<Longrightarrow>
        draws_ok self rnd (length (forms_list forms)) \<Longrightarrow>
        \<exists>out'. generate self now rnd sess forms = Inr out'"
    by (rule generate_total)
  ultimately show ?thesis by blast
qed

theorem generate_one_save_witness:
  "generate self_ex 90000000 rnd_ex (Some (session_with [cred_old, cred_new]))
      (Array [''login'', ''signup'', ''close''])
     = Inr \<lparr> gen_calls =
               [Patch ''/sessions/sess_1''
                  \<lparr> csrf = Some [(''login'', [cred_new, cred_ex 0]),
                                 (''signup'', [cred_ex 1]),
                                 (''close'', [cred_ex 2])] \<rparr>],
             gen_cb = GenOk [(''login'', cred_ex 0), (''signup'', cred_ex 1),
                             (''close'', cred_ex 2)]
                        (session_with [cred_new, cred_ex 0]) False,
             gen_session = Some (session_with [cred_new, cred_ex 0]) \<rparr>
   \<and> length [Patch ''/sessions/sess_1''
                  \<lparr> csrf = Some [(''login'', [cred_new, cred_ex 0]),
                                 (''signup'', [cred_ex 1]),
                                 (''close'', [cred_ex 2])] \<rparr>] = 1
   \<and> generate self_neg 90000000 rnd_ex None (Single ''login'') = Inl RangeError
   \<and> generate_loop self_neg rnd_ex 0 (forms_list (Single ''login'')) None [] [] = Inl RangeError
   \<and> (\<exists>out'. generate self_ex 90000000 rnd_ex None (Array [''login'', ''signup''])
                = Inr out')"
proof -
  let ?out = "\<lparr> gen_calls =
               [Patch ''/sessions/sess_1''
                  \<lparr> csrf = Some [(''login'', [cred_new, cred_ex 0]),
                                 (''signup'', [cred_ex 1]),
                                 (''close'', [cred_ex 2])] \<rparr>],
             gen_cb = GenOk [(''login'', cred_ex 0), (''signup'', cred_ex 1),
                             (''close'', cred_ex 2)]
                        (session_with [cred_new, cred_ex 0]) False,
             gen_session = Some (session_with [cred_new, cred_ex 0]) \<rparr>"
  have h: "generate self_ex 90000000 rnd_ex (Some (session_with [cred_old, cred_new]))
      (Array [''login'', ''signup'', ''close'']) = Inr ?out"
    by (simp add: generate_ex_defs numeral_2_eq_2)
  have t: "generate self_neg 90000000 rnd_ex None (Single ''login'') = Inl RangeError"
    by (simp add: generate_ex_defs)
  have e: "expire self_neg 90000000 None [] = Inr (None, [])" by (simp add: expire_def)
  from generate_one_save[of self_ex 90000000 rnd_ex "Some (session_with [cred_old, cred_new])"
         "Array [''login'', ''signup'', ''close'']" ?out, THEN conjunct1] h
  have a: "length (gen_calls ?out) = 1" by simp
  from generate_one_save[of self_neg 90000000 rnd_ex None "Single ''login''" _ RangeError,
         THEN conjunct2, THEN conjunct1] t e
  have b: "generate_loop self_neg rnd_ex 0 (forms_list (Single ''login'')) None [] []
             = Inl RangeError"
    by simp
  have p: "has_details None
      \<and> (\<forall>g \<in> set (forms_list (Array [''login'', ''signup''])). plain_name g)
      \<and> draws_ok self_ex rnd_ex (length (forms_list (Array [''login'', ''signup''])))"
    by (simp add: own_list_ex forms_list_def plain_login draws_ok_def draw_ex)
  from generate_one_save[of self_ex 90000000 rnd_ex None "Array [''login'', ''signup'']",
         THEN conjunct2, THEN conjunct2, rule_format, OF p]
  have c: "\<exists>out'. generate self_ex 90000000 rnd_ex None (Array [''login'', ''signup''])
                = Inr out'" .
  from h a t b c show ?thesis by simp
qed

section \<open>Create or update in \<open>save\<close>\<close>

text \<open>
  Claim C7. When the session is absent or has no id, \<open>save\<close> posts a new session
  carrying the given CSRF details and, when the store answers with a session, hands
  that session to the callback with \<open>created = true\<close>. Otherwise it patches the
  session of that id with the details and, when the store reports no error, hands the
  same session to the callback with \<open>created = false\<close>.
\<close>

theorem save_create_or_update:
  "((sess = None \<or> (\<exists>s. sess = Some s \<and> (id_session s = None \<or> id_session s = Some [])))
      \<and> post (luno self) ''/sessions'' \<lparr> csrf = Some dts \<rparr> = Inr created_sess \<longrightarrow>
      save self sess dts = ([Post ''/sessions'' \<lparr> csrf = Some dts \<rparr>], SaveOk created_sess True))
   \<and> (sess = Some s \<and> id_session s = Some i \<and> i \<noteq> []
      \<and> patch (luno self) (''/sessions/'' @ i) \<lparr> csrf = Some dts \<rparr> = None \<longrightarrow>
      save self sess dts = ([Patch (''/sessions/'' @ i) \<lparr> csrf = Some dts \<rparr>], SaveOk s False))"
  by (auto simp: save_def Let_def)

theorem save_create_or_update_witness:
  "save self_ex None [(''login'', [cred_new])]
     = ([Post ''/sessions'' \<lparr> csrf = Some [(''login'', [cred_new])] \<rparr>],
        SaveOk \<lparr> id_session = Some ''sess_new'', key = ''key_new'',
                 details = Some \<lparr> csrf = Some [(''login'', [cred_new])] \<rparr> \<rparr> True)
   \<and> save self_ex (Some (session_with [])) [(''login'', [cred_new])]
     = ([Patch ''/sessions/sess_1'' \<lparr> csrf = Some [(''login'', [cred_new])] \<rparr>],
        SaveOk (session_with []) False)"
  using save_create_or_update[of None self_ex "[(''login'', [cred_new])]"
          "\<lparr> id_session = Some ''sess_new'', key = ''key_new'',
                 details = Some \<lparr> csrf = Some [(''login'', [cred_new])] \<rparr> \<rparr>"]
        save_create_or_update[of "Some (session_with [])" self_ex "[(''login'', [cred_new])]" _
          "session_with []" "''sess_1''"]
  by (simp add: luno_ex_def self_ex_def session_with_def json_own_def)

section \<open>Submissions that do not match\<close>

text \<open>
  Claim C8 as stated fails: without a body, \<open>body[name]\<close> throws as soon as the loop
  reaches a stored credential; and for the form name \<open>constructor\<close> the value read from
  the CSRF data is the function \<open>Object\<close>, whose element 0 is \<open>undefined\<close>, so the loop
  throws whatever the body is.
\<close>

theorem validate_body_counterexample:
  "validate self_ex scmp_ex array_member_ex 90000000 ''login''
     (Some (session_with [cred_new])) None = Inl TypeError
   \<and> validate self_ex scmp_ex array_member_ex 90000000 ''constructor''
     (Some (session_with [cred_new])) (Some (body_of [(''csrf-n2'', Str ''t2'')]))
       = Inl TypeError"
  by (simp add: validate_def session_form_def csrf_get_def details_get_def object_get_def
        object_member_def expire_def ex_defs splice1_def Let_def validate_loop.simps)

text \<open>
  Claim C8, as amended. For every form whose name is one under which a plain object
  inherits nothing, every session whose CSRF data has no own property \<open>__proto__\<close>, and
  every body that is present, \<open>validate\<close> returns without throwing; and, the numbers that
  decide expiry being exact, it returns matched only if the session stores for the form
  an unexpired credential whose token the comparison accepts for the value found in the
  body under the field name of that credential. \<open>validateReq\<close> on a request with a body
  does the same.
\<close>

theorem validate_with_body_returns:
  "plain_name form \<and> no_proto_key sess \<longrightarrow>
   (\<exists>out. validate self scmp array_member now form sess (Some b) = Inr out
      \<and> (ret out \<and> exact_numbers self now (stored sess form) \<longrightarrow>
           (\<exists>c \<in> set (stored sess form). alive self now c \<and> matches self scmp b c)))
   \<and> validateReq self scmp array_member now form \<lparr> req_session = sess, req_body = Some b \<rparr>
       = validate self scmp array_member now form sess (Some b)"
  using validate_body_total[of form sess self scmp array_member now b]
  by (auto simp add: validateReq_def)

theorem validate_with_body_returns_witness:
  "validate self_ex scmp_ex array_member_ex 90000000 ''login'' (Some (session_with [cred_new]))
      (Some (body_of [(''csrf-n2'', Num 7)]))
     = Inr \<lparr> ret = False, val_cb = ValOk False None, val_calls = [],
             val_session = Some (session_with [cred_new]) \<rparr>
   \<and> (\<exists>out. validateReq self_ex scmp_ex array_member_ex 90000000 ''login''
               \<lparr> req_session = Some (session_with [cred_new]),
                 req_body = Some (body_of [(''csrf-n2'', Str ''t2'')]) \<rparr> = Inr out
            \<and> ret out
            \<and> (\<exists>c \<in> set (stored (Some (session_with [cred_new])) ''login'').
                  alive self_ex 90000000 c
                  \<and> matches self_ex scmp_ex (body_of [(''csrf-n2'', Str ''t2'')]) c))"
proof -
  have h: "validate self_ex scmp_ex array_member_ex 90000000 ''login''
      (Some (session_with [cred_new])) (Some (body_of [(''csrf-n2'', Num 7)]))
     = Inr \<lparr> ret = False, val_cb = ValOk False None, val_calls = [],
             val_session = Some (session_with [cred_new]) \<rparr>"
    by (simp add: validate_def session_form_def csrf_get_def details_get_def object_get_def object_member_def
          expire_def ex_defs
          splice1_def Let_def validate_loop.simps field_name_def body_of_def)
  have r: "\<And>out. validate self_ex scmp_ex array_member_ex 90000000 ''login''
               (Some (session_with [cred_new]))
               (Some (body_of [(''csrf-n2'', Str ''t2'')])) = Inr out \<Longrightarrow> ret out"
    by (auto simp add: validate_def session_form_def csrf_get_def details_get_def object_get_def object_member_def
          expire_def
          ex_defs splice1_def Let_def validate_loop.simps field_name_def body_of_def
          set_form_def save_def)
  have p: "plain_name ''login'' \<and> no_proto_key (Some (session_with [cred_new]))"
    by (simp add: plain_login own_list_ex)
  have x: "exact_numbers self_ex 90000000 (stored (Some (session_with [cred_new])) ''login'')"
    by (simp add: own_list_ex exact_ex)
  from validate_with_body_returns[of "''login''" "Some (session_with [cred_new])" self_ex
         scmp_ex array_member_ex 90000000 "body_of [(''csrf-n2'', Str ''t2'')]",
         rule_format, OF p] h r x
  show ?thesis by (auto simp: validateReq_def)
qed

section \<open>Construction\<close>




section \<open>Sessions without details\<close>



end
